theory Spec2Isabelle
  imports Complex_Main "HOL-Library.FSet"
begin

section \<open>Values, errors and the Python primitives the scripts use\<close>

text \<open>
  The two scripts, \<^verbatim>\<open>analyze_pg_spike.py\<close> and \<^verbatim>\<open>compare_leader_replica.py\<close>, work on
  data parsed from JSON. A query observation is a Python dict; the values the scripts read
  from it are numbers or strings. A number is modelled by its value, a rational (the
  rounding of the arithmetic on floats is modelled, see below), strings as \<open>string\<close>
  with one \<open>char\<close> for one code point below 256. Every exception the modelled code can
  raise on such data is a value of \<open>error\<close>.
\<close>

datatype error = KeyError string | ValueError | TypeError | AttributeError
  | ZeroDivisionError | StatisticsError | IndexError

datatype jval = JNum rat | JStr string

type_synonym query = "string \<Rightarrow> jval option"

definition bindE :: "error + 'a \<Rightarrow> ('a \<Rightarrow> error + 'b) \<Rightarrow> error + 'b" where
  "bindE m f = (case m of Inl e \<Rightarrow> Inl e | Inr x \<Rightarrow> f x)"

text \<open>\<^verbatim>\<open>d.get(key, default)\<close>\<close>

definition get :: "query \<Rightarrow> string \<Rightarrow> jval \<Rightarrow> jval" where
  "get q k d = (case q k of None \<Rightarrow> d | Some v \<Rightarrow> v)"

text \<open>Python truth value of a number or a string (\<^verbatim>\<open>if preview:\<close>).\<close>

fun truthy :: "jval \<Rightarrow> bool" where
  "truthy (JNum n) = (n \<noteq> 0)"
| "truthy (JStr s) = (s \<noteq> [])"

text \<open>\<^verbatim>\<open>x[:n]\<close>: a slice of a string; a number is not subscriptable.\<close>

fun slice_to :: "nat \<Rightarrow> jval \<Rightarrow> error + string" where
  "slice_to n (JStr s) = Inr (take n s)"
| "slice_to n (JNum _) = Inl TypeError"

text \<open>
  The characters \<^verbatim>\<open>str.split()\<close> treats as whitespace, among the code points below 256:
  U+0009 to U+000D, U+001C to U+0020, U+0085 and U+00A0.
\<close>

definition is_space :: "char \<Rightarrow> bool" where
  "is_space c = (let n = (of_char c :: nat)
     in (9 \<le> n \<and> n \<le> 13) \<or> (28 \<le> n \<and> n \<le> 32) \<or> n = 133 \<or> n = 160)"

text \<open>
  \<^verbatim>\<open>s.split()\<close> with no argument: the maximal runs of non-whitespace characters, in
  order. The first argument of \<open>split_acc\<close> is the word being read.
\<close>

fun split_acc :: "string \<Rightarrow> string \<Rightarrow> string list" where
  "split_acc w [] = (if w = [] then [] else [w])"
| "split_acc w (c # cs) =
     (if is_space c then (if w = [] then split_acc [] cs else w # split_acc [] cs)
      else split_acc (w @ [c]) cs)"

definition str_split :: "string \<Rightarrow> string list" where
  "str_split s = split_acc [] s"

text \<open>\<^verbatim>\<open>' '.join(ws)\<close>\<close>

fun join_sp :: "string list \<Rightarrow> string" where
  "join_sp [] = []"
| "join_sp [w] = w"
| "join_sp (w # v # ws) = w @ CHR '' '' # join_sp (v # ws)"

text \<open>
  \<^verbatim>\<open>Counter(xs)\<close>: a dict from key to count, in the order the keys were first seen.
  A missing key reads as 0.
\<close>

fun counter_add :: "'a \<Rightarrow> ('a \<times> nat) list \<Rightarrow> ('a \<times> nat) list" where
  "counter_add x [] = [(x, 1)]"
| "counter_add x ((k, n) # kvs) =
     (if k = x then (k, n + 1) # kvs else (k, n) # counter_add x kvs)"

definition Counter :: "'a list \<Rightarrow> ('a \<times> nat) list" where
  "Counter xs = foldl (\<lambda>c x. counter_add x c) [] xs"

definition counter_get :: "('a \<times> nat) list \<Rightarrow> 'a \<Rightarrow> nat" where
  "counter_get c k = (case map_of c k of None \<Rightarrow> 0 | Some n \<Rightarrow> n)"

text \<open>
  \<^verbatim>\<open>c.most_common(n)\<close> and \<^verbatim>\<open>sorted(items, key=count, reverse=True)[:n]\<close>: by count,
  largest first; the sort is stable, so equal counts keep their order.
\<close>

definition most_common :: "nat \<Rightarrow> ('a \<times> nat) list \<Rightarrow> ('a \<times> nat) list" where
  "most_common n c = take n (sort_key (\<lambda>kc. - int (snd kc)) c)"

section \<open>Floating-point numbers\<close>

text \<open>
  A Python float is an IEEE 754 double; its value is a rational. \<open>rnd x\<close> is the double
  nearest to \<open>x\<close>, ties going to the even significand: for \<open>x = p / q\<close> with
  \<open>2 ^ e \<le> \<bar>x\<bar> < 2 ^ (e + 1)\<close> the doubles around \<open>x\<close> are the multiples of
  \<open>2 ^ (e - 52)\<close>, and of \<open>2 ^ (- 1074)\<close> below \<open>2 ^ (- 1022)\<close>. The model has no
  infinities and no NaN: a result beyond the range of the doubles is outside it.

  Python computes with floats by rounding the exact result of each operation, and with
  ints exactly; the division of two ints gives the float nearest to the quotient. An int
  of magnitude below \<open>2 ^ 53\<close> is a double, so \<open>f_add\<close>, \<open>f_sub\<close>, \<open>f_mul\<close> and
  \<open>f_div\<close> are the operations of Python on floats and on such ints. A literal such as
  \<^verbatim>\<open>1.2\<close>, in the source or in a JSON file, is the float \<open>rnd (6 / 5)\<close>.
\<close>

function bit_length :: "int \<Rightarrow> int" where
  "bit_length n = (if n \<le> 0 then 0 else 1 + bit_length (n div 2))"
  by pat_completeness auto
termination
  by (relation "measure nat") auto

declare bit_length.simps [simp del]

definition pow2 :: "int \<Rightarrow> int" where
  "pow2 k = 2 ^ nat k"

text \<open>The \<open>e\<close> with \<open>2 ^ e \<le> p / q < 2 ^ (e + 1)\<close>, for positive \<open>p\<close> and \<open>q\<close>.\<close>

definition ilog2 :: "int \<Rightarrow> int \<Rightarrow> int" where
  "ilog2 p q = (let d = bit_length p - bit_length q
                in if q * pow2 d \<le> p * pow2 (- d) then d else d - 1)"

text \<open>The integer nearest to \<open>n / d\<close>, the even one of two at the same distance.\<close>

definition round_half_even :: "int \<Rightarrow> int \<Rightarrow> int" where
  "round_half_even n d = (let f = n div d; r = n mod d
     in if 2 * r < d then f else if 2 * r > d then f + 1
        else if even f then f else f + 1)"

definition rnd :: "rat \<Rightarrow> rat" where
  "rnd x = (let (p, q) = quotient_of x
     in if p = 0 then 0
        else let a = \<bar>p\<bar>; e = max (ilog2 a q) (- 1022); s = 52 - e;
                 m = round_half_even (a * pow2 s) (q * pow2 (- s))
             in of_int (sgn p * m * pow2 (- s)) / of_int (pow2 s))"

definition f_add :: "rat \<Rightarrow> rat \<Rightarrow> rat" where
  "f_add a b = rnd (a + b)"

definition f_sub :: "rat \<Rightarrow> rat \<Rightarrow> rat" where
  "f_sub a b = rnd (a - b)"

definition f_mul :: "rat \<Rightarrow> rat \<Rightarrow> rat" where
  "f_mul a b = rnd (a * b)"

definition f_div :: "rat \<Rightarrow> rat \<Rightarrow> rat" where
  "f_div a b = rnd (a / b)"

text \<open>\<^verbatim>\<open>(a / b) * 100\<close>, for a divisor that is not 0.\<close>

definition percent :: "rat \<Rightarrow> rat \<Rightarrow> rat" where
  "percent a b = f_mul (f_div a b) 100"

section \<open>Statistics\<close>

text \<open>
  \<^verbatim>\<open>min\<close>, \<^verbatim>\<open>max\<close>, \<^verbatim>\<open>statistics.mean\<close> and \<^verbatim>\<open>statistics.median\<close> on a list of
  numbers. On an empty list the first two raise ValueError, the last two StatisticsError.
  \<^verbatim>\<open>mean\<close> adds the numbers exactly and rounds the quotient once; \<^verbatim>\<open>median\<close> of an
  even number of values is \<^verbatim>\<open>(a + b) / 2\<close>.
\<close>

definition py_min :: "rat list \<Rightarrow> error + rat" where
  "py_min xs = (case xs of [] \<Rightarrow> Inl ValueError | x # ys \<Rightarrow> Inr (fold min ys x))"

definition py_max :: "rat list \<Rightarrow> error + rat" where
  "py_max xs = (case xs of [] \<Rightarrow> Inl ValueError | x # ys \<Rightarrow> Inr (fold max ys x))"

definition mean :: "rat list \<Rightarrow> error + rat" where
  "mean xs = (if xs = [] then Inl StatisticsError
     else Inr (rnd (sum_list xs / of_nat (length xs))))"

definition median :: "rat list \<Rightarrow> error + rat" where
  "median xs = (if xs = [] then Inl StatisticsError
     else let s = sort xs; n = length s
          in if odd n then Inr (s ! (n div 2))
             else Inr (f_div (f_add (s ! (n div 2 - 1)) (s ! (n div 2))) 2))"

text \<open>
  The numbers of a list of values, for the statistics functions: a string among them is a
  TypeError.
\<close>

fun nums :: "jval list \<Rightarrow> error + rat list" where
  "nums [] = Inr []"
| "nums (JNum n # vs) = bindE (nums vs) (\<lambda>ns. Inr (n # ns))"
| "nums (JStr _ # vs) = Inl TypeError"

section \<open>analyze\_pg\_spike.py: the extractor\<close>

text \<open>
  A snapshot. The four numeric fields are read with \<^verbatim>\<open>s['...']\<close> (\<open>None\<close> is a missing
  key, a KeyError); \<^verbatim>\<open>queries\<close> is read with \<^verbatim>\<open>s.get('queries', [])\<close>.
\<close>

record snapshot =
  load_avg_1m :: "rat option"
  load_avg_5m :: "rat option"
  load_avg_15m :: "rat option"
  active_query_count :: "rat option"
  queries :: "query list option"

text \<open>\<^verbatim>\<open>[s[key] for s in snapshots]\<close>\<close>

fun column :: "string \<Rightarrow> (snapshot \<Rightarrow> rat option) \<Rightarrow> snapshot list \<Rightarrow> error + rat list" where
  "column key f [] = Inr []"
| "column key f (s # ss) =
     (case f s of None \<Rightarrow> Inl (KeyError key)
      | Some v \<Rightarrow> bindE (column key f ss) (\<lambda>vs. Inr (v # vs)))"

text \<open>\<^verbatim>\<open>get_query_signature\<close>: \<open>None\<close> is Python's \<^verbatim>\<open>None\<close>.\<close>

definition get_query_signature :: "query \<Rightarrow> error + string option" where
  "get_query_signature query =
     (let preview = get query ''query_preview'' (JStr '''')
      in if \<not> truthy preview then Inr None
         else bindE (slice_to 200 preview) (\<lambda>p. Inr (Some (join_sp (str_split p)))))"

record long_query =
  lq_duration :: rat
  lq_app :: jval
  lq_wait :: jval
  lq_wait_type :: jval
  lq_preview :: string

record lock_wait =
  lw_duration :: rat
  lw_app :: jval
  lw_wait :: jval
  lw_preview :: string

text \<open>The local variables of \<^verbatim>\<open>extract_metrics\<close> that the loop over the queries fills.\<close>

record locals =
  wait_events_l :: "jval list"
  wait_event_types_l :: "jval list"
  query_durations_l :: "jval list"
  transaction_durations_l :: "jval list"
  applications_l :: "jval list"
  query_patterns_l :: "string list"
  query_signatures_l :: "string fset"
  users_l :: "jval list"
  lock_waits_l :: "lock_wait list"
  long_queries_l :: "long_query list"

definition init_locals :: locals where
  "init_locals = \<lparr>wait_events_l = [], wait_event_types_l = [], query_durations_l = [],
     transaction_durations_l = [], applications_l = [], query_patterns_l = [],
     query_signatures_l = {||}, users_l = [], lock_waits_l = [], long_queries_l = []\<rparr>"

text \<open>
  The body of the inner loop, for one query. \<^verbatim>\<open>preview.split()\<close> on a number is an
  AttributeError, \<^verbatim>\<open>duration > 10\<close> on a string a TypeError, \<^verbatim>\<open>preview[:150]\<close> on a
  number a TypeError.
\<close>

definition process_query :: "locals \<Rightarrow> query \<Rightarrow> error + locals" where
  "process_query l query =
     (let wait_event = get query ''wait_event'' (JStr ''unknown'');
          wait_type = get query ''wait_event_type'' (JStr ''unknown'');
          duration = get query ''query_duration_sec'' (JNum 0);
          app = get query ''application_name'' (JStr ''unknown'');
          l1 = l\<lparr>wait_events_l := wait_events_l l @ [wait_event],
                 wait_event_types_l := wait_event_types_l l @ [wait_type],
                 query_durations_l := query_durations_l l @ [duration],
                 transaction_durations_l := transaction_durations_l l
                   @ [get query ''transaction_duration_sec'' (JNum 0)],
                 applications_l := applications_l l @ [app],
                 users_l := users_l l @ [get query ''usename'' (JStr ''unknown'')]\<rparr>;
          preview = get query ''query_preview'' (JStr '''')
      in bindE
          (if truthy preview then
             (case preview of
                JNum _ \<Rightarrow> Inl AttributeError
              | JStr p \<Rightarrow>
                  (let normalized = join_sp (take 15 (str_split p));
                       l2 = l1\<lparr>query_patterns_l := query_patterns_l l1 @ [normalized]\<rparr>
                   in bindE (get_query_signature query) (\<lambda>sig.
                        case sig of
                          None \<Rightarrow> Inr l2
                        | Some g \<Rightarrow>
                            if g \<noteq> [] then
                              Inr (l2\<lparr>query_signatures_l := finsert g (query_signatures_l l2)\<rparr>)
                            else Inr l2)))
           else Inr l1)
          (\<lambda>l3. case duration of
             JStr _ \<Rightarrow> Inl TypeError
           | JNum d \<Rightarrow>
               bindE
                 (if d > 10 then
                    bindE (slice_to 150 preview) (\<lambda>p.
                      Inr (l3\<lparr>long_queries_l := long_queries_l l3 @
                        [\<lparr>lq_duration = d, lq_app = app, lq_wait = wait_event,
                          lq_wait_type = wait_type, lq_preview = p\<rparr>]\<rparr>))
                  else Inr l3)
                 (\<lambda>l4. if wait_type = JStr ''Lock'' then
                      bindE (slice_to 150 preview) (\<lambda>p.
                        Inr (l4\<lparr>lock_waits_l := lock_waits_l l4 @
                          [\<lparr>lw_duration = d, lw_app = app, lw_wait = wait_event,
                            lw_preview = p\<rparr>]\<rparr>))
                    else Inr l4)))"

text \<open>\<^verbatim>\<open>for query in snapshot.get('queries', [])\<close>\<close>

fun process_queries :: "locals \<Rightarrow> query list \<Rightarrow> error + locals" where
  "process_queries l [] = Inr l"
| "process_queries l (q # qs) = bindE (process_query l q) (\<lambda>l'. process_queries l' qs)"

definition queries_of :: "snapshot \<Rightarrow> query list" where
  "queries_of s = (case queries s of None \<Rightarrow> [] | Some qs \<Rightarrow> qs)"

text \<open>\<^verbatim>\<open>for snapshot in snapshots\<close>\<close>

fun process_snapshots :: "locals \<Rightarrow> snapshot list \<Rightarrow> error + locals" where
  "process_snapshots l [] = Inr l"
| "process_snapshots l (s # ss) =
     bindE (process_queries l (queries_of s)) (\<lambda>l'. process_snapshots l' ss)"

record stat =
  st_min :: rat
  st_max :: rat
  st_avg :: rat
  st_median :: rat

text \<open>\<^verbatim>\<open>{'min': min(xs), 'max': max(xs), 'avg': mean(xs), 'median': median(xs)}\<close>\<close>

definition stats :: "rat list \<Rightarrow> error + stat" where
  "stats xs =
     bindE (py_min xs) (\<lambda>mn. bindE (py_max xs) (\<lambda>mx.
     bindE (mean xs) (\<lambda>av. bindE (median xs) (\<lambda>md.
       Inr \<lparr>st_min = mn, st_max = mx, st_avg = av, st_median = md\<rparr>))))"

text \<open>
  The summary \<^verbatim>\<open>extract_metrics\<close> returns. \<open>load_1m\<close>, \<open>load_5m\<close> and \<open>load_15m\<close> are the
  entries of the nested dict \<^verbatim>\<open>'load'\<close>.
\<close>

record summary =
  snapshot_count :: nat
  load_1m :: stat
  load_5m :: stat
  load_15m :: stat
  active_queries :: stat
  wait_events :: "(jval \<times> nat) list"
  wait_event_types :: "(jval \<times> nat) list"
  query_durations :: "jval list"
  transaction_durations :: "jval list"
  applications :: "(jval \<times> nat) list"
  users :: "(jval \<times> nat) list"
  query_patterns :: "(string \<times> nat) list"
  query_signatures :: "string fset"
  total_queries_observed :: nat
  long_queries :: "long_query list"
  lock_waits :: "lock_wait list"

definition extract_metrics :: "snapshot list \<Rightarrow> error + summary" where
  "extract_metrics snapshots =
     bindE (column ''load_avg_1m'' load_avg_1m snapshots) (\<lambda>l1m.
     bindE (column ''load_avg_5m'' load_avg_5m snapshots) (\<lambda>l5m.
     bindE (column ''load_avg_15m'' load_avg_15m snapshots) (\<lambda>l15m.
     bindE (column ''active_query_count'' active_query_count snapshots) (\<lambda>active_counts.
     bindE (process_snapshots init_locals snapshots) (\<lambda>l.
     bindE (stats l1m) (\<lambda>s1.
     bindE (stats l5m) (\<lambda>s5.
     bindE (stats l15m) (\<lambda>s15.
     bindE (stats active_counts) (\<lambda>sa.
       Inr \<lparr>snapshot_count = length snapshots,
            load_1m = s1, load_5m = s5, load_15m = s15,
            active_queries = sa,
            wait_events = Counter (wait_events_l l),
            wait_event_types = Counter (wait_event_types_l l),
            query_durations = query_durations_l l,
            transaction_durations = transaction_durations_l l,
            applications = Counter (applications_l l),
            users = Counter (users_l l),
            query_patterns = Counter (query_patterns_l l),
            query_signatures = query_signatures_l l,
            total_queries_observed = length (query_durations_l l),
            long_queries = long_queries_l l,
            lock_waits = lock_waits_l l\<rparr>)))))))))"

section \<open>compare\_leader\_replica.py: the extractor\<close>

record lr_long_query =
  lrq_duration :: rat
  lrq_app :: jval
  lrq_wait :: jval
  lrq_wait_type :: jval

record lr_lock_wait =
  lrl_duration :: rat
  lrl_app :: jval
  lrl_wait :: jval

record lr_locals =
  lr_wait_events_l :: "jval list"
  lr_wait_event_types_l :: "jval list"
  lr_query_durations_l :: "jval list"
  lr_applications_l :: "jval list"
  lr_long_queries_l :: "lr_long_query list"
  lr_lock_waits_l :: "lr_lock_wait list"

definition lr_init_locals :: lr_locals where
  "lr_init_locals = \<lparr>lr_wait_events_l = [], lr_wait_event_types_l = [],
     lr_query_durations_l = [], lr_applications_l = [], lr_long_queries_l = [],
     lr_lock_waits_l = []\<rparr>"

definition lr_process_query :: "lr_locals \<Rightarrow> query \<Rightarrow> error + lr_locals" where
  "lr_process_query l query =
     (let wait_event = get query ''wait_event'' (JStr ''unknown'');
          wait_type = get query ''wait_event_type'' (JStr ''unknown'');
          duration = get query ''query_duration_sec'' (JNum 0);
          app = get query ''application_name'' (JStr ''unknown'');
          l1 = l\<lparr>lr_wait_events_l := lr_wait_events_l l @ [wait_event],
                 lr_wait_event_types_l := lr_wait_event_types_l l @ [wait_type],
                 lr_query_durations_l := lr_query_durations_l l @ [duration],
                 lr_applications_l := lr_applications_l l @ [app]\<rparr>
      in case duration of
           JStr _ \<Rightarrow> Inl TypeError
         | JNum d \<Rightarrow>
             (let l2 = (if d > 10 then
                          l1\<lparr>lr_long_queries_l := lr_long_queries_l l1 @
                            [\<lparr>lrq_duration = d, lrq_app = app, lrq_wait = wait_event,
                              lrq_wait_type = wait_type\<rparr>]\<rparr>
                        else l1)
              in Inr (if wait_type = JStr ''Lock'' then
                        l2\<lparr>lr_lock_waits_l := lr_lock_waits_l l2 @
                          [\<lparr>lrl_duration = d, lrl_app = app, lrl_wait = wait_event\<rparr>]\<rparr>
                      else l2)))"

fun lr_process_queries :: "lr_locals \<Rightarrow> query list \<Rightarrow> error + lr_locals" where
  "lr_process_queries l [] = Inr l"
| "lr_process_queries l (q # qs) =
     bindE (lr_process_query l q) (\<lambda>l'. lr_process_queries l' qs)"

fun lr_process_snapshots :: "lr_locals \<Rightarrow> snapshot list \<Rightarrow> error + lr_locals" where
  "lr_process_snapshots l [] = Inr l"
| "lr_process_snapshots l (s # ss) =
     bindE (lr_process_queries l (queries_of s)) (\<lambda>l'. lr_process_snapshots l' ss)"

record lr_summary =
  lr_snapshot_count :: nat
  load_avg :: rat
  active_queries_avg :: rat
  total_queries :: nat
  lr_wait_event_types :: "(jval \<times> nat) list"
  lr_wait_events :: "(jval \<times> nat) list"
  lr_applications :: "(jval \<times> nat) list"
  lr_long_queries :: "lr_long_query list"
  lr_lock_waits :: "lr_lock_wait list"
  avg_duration :: rat

text \<open>
  \<^verbatim>\<open>extract_metrics\<close> of \<^verbatim>\<open>compare_leader_replica.py\<close>. The result \<open>Inr None\<close> is the
  Python value \<^verbatim>\<open>None\<close>, returned for an empty list of snapshots.
\<close>

definition lr_extract_metrics :: "snapshot list \<Rightarrow> error + lr_summary option" where
  "lr_extract_metrics snapshots =
     (if snapshots = [] then Inr None
      else
        bindE (column ''load_avg_1m'' load_avg_1m snapshots) (\<lambda>l1m.
        bindE (column ''active_query_count'' active_query_count snapshots) (\<lambda>active_counts.
        bindE (lr_process_snapshots lr_init_locals snapshots) (\<lambda>l.
        bindE (mean l1m) (\<lambda>la.
        bindE (mean active_counts) (\<lambda>aa.
        bindE (if lr_query_durations_l l \<noteq> []
               then bindE (nums (lr_query_durations_l l)) mean else Inr 0) (\<lambda>ad.
          Inr (Some \<lparr>lr_snapshot_count = length snapshots,
                     load_avg = la,
                     active_queries_avg = aa,
                     total_queries = length (lr_query_durations_l l),
                     lr_wait_event_types = Counter (lr_wait_event_types_l l),
                     lr_wait_events = Counter (lr_wait_events_l l),
                     lr_applications = Counter (lr_applications_l l),
                     lr_long_queries = lr_long_queries_l l,
                     lr_lock_waits = lr_lock_waits_l l,
                     avg_duration = ad\<rparr>))))))))"

section \<open>analyze\_pg\_spike.py: the comparison\<close>

text \<open>
  \<^verbatim>\<open>compare_metrics\<close> returns the text of a report. The model returns the values the
  report is written from, in a record, and leaves the formatting of numbers and the
  frequency tables (which only print) out. The findings are a datatype with one
  constructor for each message, holding the values the message prints.
\<close>

datatype finding =
    LongQueriesIncreased nat nat
  | LockContentionIncreased nat nat
  | SystemLoadChanged bool rat
  | NewApplications nat
  | MainCulprit jval nat
  | NoSignificantDifferences

record duration_section =
  normal_avg :: rat
  spike_avg :: rat
  normal_median :: rat
  spike_median :: rat
  normal_max :: rat
  spike_max :: rat
  duration_diff :: rat
  duration_pct :: rat

record report =
  load_diff :: rat
  load_pct :: rat
  query_diff :: rat
  query_pct :: rat
  durations :: "duration_section option"
  top_long_queries :: "(long_query \<times> string) list"
  lock_types :: "(string \<times> nat \<times> (string \<times> nat \<times> rat) list) list"
  both :: "string fset"
  only_in_spike :: "string fset"
  only_in_normal :: "string fset"
  only_spike_apps :: "jval fset"
  only_normal_apps :: "jval fset"
  findings :: "finding list"

text \<open>
  \<^verbatim>\<open>xs.sort(key=lambda x: x['duration'], reverse=True)\<close>: stable, largest duration
  first.
\<close>

definition sort_by_duration :: "long_query list \<Rightarrow> long_query list" where
  "sort_by_duration xs = sort_key (\<lambda>x. - lq_duration x) xs"

text \<open>The lines printed for the longest queries: \<^verbatim>\<open>q['app'][:60]\<close> needs a string.\<close>

fun top_long :: "long_query list \<Rightarrow> error + (long_query \<times> string) list" where
  "top_long [] = Inr []"
| "top_long (q # qs) =
     bindE (slice_to 60 (lq_app q)) (\<lambda>a.
     bindE (top_long qs) (\<lambda>r. Inr ((q, a) # r)))"

text \<open>
  The applications waiting on one type of lock: \<^verbatim>\<open>app[:60]\<close>, the count and
  \<^verbatim>\<open>count / len(locks) * 100\<close>.
\<close>

fun top_apps :: "nat \<Rightarrow> (jval \<times> nat) list \<Rightarrow> error + (string \<times> nat \<times> rat) list" where
  "top_apps n [] = Inr []"
| "top_apps n ((app, count) # r) =
     bindE (slice_to 60 app) (\<lambda>a.
     bindE (top_apps n r) (\<lambda>t. Inr ((a, count, percent (of_nat count) (of_nat n)) # t)))"

text \<open>\<^verbatim>\<open>for lock_type in ['transactionid', 'tuple', 'relation']\<close>\<close>

fun lock_breakdown :: "lock_wait list \<Rightarrow> string list
    \<Rightarrow> error + (string \<times> nat \<times> (string \<times> nat \<times> rat) list) list" where
  "lock_breakdown lws [] = Inr []"
| "lock_breakdown lws (lock_type # r) =
     (let locks = filter (\<lambda>lock. lw_wait lock = JStr lock_type) lws
      in if locks = [] then lock_breakdown lws r
         else
           bindE (top_apps (length locks) (most_common 5 (Counter (map lw_app locks)))) (\<lambda>t.
           bindE (lock_breakdown lws r) (\<lambda>b. Inr ((lock_type, length locks, t) # b))))"

text \<open>
  The section \<^verbatim>\<open>Query Duration Analysis\<close> of \<^verbatim>\<open>compare_metrics\<close>: the statistics are
  computed when both periods have durations.
\<close>

definition duration_analysis :: "summary \<Rightarrow> summary \<Rightarrow> error + duration_section option" where
  "duration_analysis normal spike =
     (if query_durations normal \<noteq> [] \<and> query_durations spike \<noteq> [] then
        bindE (nums (query_durations normal)) (\<lambda>nd.
        bindE (mean nd) (\<lambda>normal_avg.
        bindE (nums (query_durations spike)) (\<lambda>sd.
        bindE (mean sd) (\<lambda>spike_avg.
        bindE (median nd) (\<lambda>normal_median.
        bindE (median sd) (\<lambda>spike_median.
        bindE (py_max nd) (\<lambda>normal_max.
        bindE (py_max sd) (\<lambda>spike_max.
          (let duration_diff = f_sub spike_avg normal_avg;
               duration_pct = (if normal_avg > 0
                               then percent duration_diff normal_avg else 0)
           in Inr (Some \<lparr>normal_avg = normal_avg, spike_avg = spike_avg,
                 normal_median = normal_median, spike_median = spike_median,
                 normal_max = normal_max, spike_max = spike_max,
                 duration_diff = duration_diff, duration_pct = duration_pct\<rparr>))))))))))
      else Inr None)"

text \<open>
  The section \<^verbatim>\<open>Key Findings & Recommendations\<close> of \<^verbatim>\<open>compare_metrics\<close>, from the two
  summaries (the spike's long queries already sorted) and the values of the variables
  \<^verbatim>\<open>load_pct\<close> and \<^verbatim>\<open>only_spike_apps\<close>. \<open>findings0\<close> to \<open>findings5\<close> are the list \<^verbatim>\<open>findings\<close> after
  each \<^verbatim>\<open>if\<close>; the result is what the report is extended with. The thresholds
  \<^verbatim>\<open>1.5\<close> and \<^verbatim>\<open>1.2\<close> are floats, and so are the products with them; Python
  compares an int with a float by their values.
\<close>

definition key_findings :: "summary \<Rightarrow> summary \<Rightarrow> rat \<Rightarrow> jval fset \<Rightarrow> error + finding list" where
  "key_findings normal spike the_load_pct the_only_spike_apps =
     (let findings0 = [];
          findings1 = (if rat_of_nat (length (long_queries spike))
                            > f_mul (rat_of_nat (length (long_queries normal))) (rnd (3 / 2))
                       then findings0 @ [LongQueriesIncreased
                              (length (long_queries normal)) (length (long_queries spike))]
                       else findings0);
          findings2 = (if rat_of_nat (length (lock_waits spike))
                            > f_mul (rat_of_nat (length (lock_waits normal))) (rnd (6 / 5))
                       then findings1 @ [LockContentionIncreased
                              (length (lock_waits normal)) (length (lock_waits spike))]
                       else findings1);
          findings3 = (if \<bar>the_load_pct\<bar> > 10
                       then findings2 @ [SystemLoadChanged (the_load_pct > 0) \<bar>the_load_pct\<bar>]
                       else findings2);
          findings4 = (if the_only_spike_apps \<noteq> {||}
                       then findings3 @ [NewApplications (fcard the_only_spike_apps)]
                       else findings3)
      in
      bindE (if long_queries spike \<noteq> [] then
               (case most_common 1 (Counter (map lq_app (long_queries spike))) of
                  [] \<Rightarrow> Inl IndexError
                | top_culprit # _ \<Rightarrow>
                    Inr (findings4 @ [MainCulprit (fst top_culprit) (snd top_culprit)]))
             else Inr findings4) (\<lambda>findings5.
      Inr (if findings5 \<noteq> [] then findings5 else [NoSignificantDifferences])))"

text \<open>
  \<^verbatim>\<open>compare_metrics(normal, spike)\<close>. The two summaries are Python dicts, passed by
  reference (two different objects, as in \<^verbatim>\<open>main\<close>); the model returns them as they
  are after the call, next to the report. \<open>spike1\<close> is the spike summary after
  \<^verbatim>\<open>spike['long_queries'].sort(...)\<close>.
\<close>

definition compare_metrics :: "summary \<Rightarrow> summary \<Rightarrow> error + report \<times> summary \<times> summary" where
  "compare_metrics normal spike =
     (let load_diff = f_sub (st_avg (load_1m spike)) (st_avg (load_1m normal));
          load_pct = (if st_avg (load_1m normal) > 0
                      then percent load_diff (st_avg (load_1m normal)) else 0);
          query_diff = f_sub (st_avg (active_queries spike)) (st_avg (active_queries normal));
          query_pct = (if st_avg (active_queries normal) > 0
                       then percent query_diff (st_avg (active_queries normal)) else 0)
      in
      bindE (duration_analysis normal spike) (\<lambda>durations.
      let spike1 = (if long_queries spike \<noteq> []
                    then spike\<lparr>long_queries := sort_by_duration (long_queries spike)\<rparr>
                    else spike)
      in
      bindE (top_long (take 10 (long_queries spike1))) (\<lambda>top.
      bindE (if lock_waits spike1 \<noteq> []
             then lock_breakdown (lock_waits spike1) [''transactionid'', ''tuple'', ''relation'']
             else Inr []) (\<lambda>locks.
      let both = query_signatures normal |\<inter>| query_signatures spike1;
          only_in_spike = query_signatures spike1 |-| query_signatures normal;
          only_in_normal = query_signatures normal |-| query_signatures spike1;
          normal_apps = fset_of_list (map fst (applications normal));
          spike_apps = fset_of_list (map fst (applications spike1));
          only_spike_apps = spike_apps |-| normal_apps;
          only_normal_apps = normal_apps |-| spike_apps
      in
      bindE (key_findings normal spike1 load_pct only_spike_apps) (\<lambda>findings.
      Inr (\<lparr>load_diff = load_diff, load_pct = load_pct,
             query_diff = query_diff, query_pct = query_pct,
             durations = durations,
             top_long_queries = top,
             lock_types = locks,
             both = both, only_in_spike = only_in_spike, only_in_normal = only_in_normal,
             only_spike_apps = only_spike_apps, only_normal_apps = only_normal_apps,
             findings = findings\<rparr>,
           normal, spike1))))))"

section \<open>compare\_leader\_replica.py: the comparison of one server\<close>

text \<open>\<^verbatim>\<open>a / b\<close>: Python raises ZeroDivisionError where HOL's division returns 0.\<close>

definition py_div :: "rat \<Rightarrow> rat \<Rightarrow> error + rat" where
  "py_div a b = (if b = 0 then Inl ZeroDivisionError else Inr (f_div a b))"

record lr_report =
  load_change :: rat
  lr_load_pct :: rat
  query_change :: rat
  lr_query_pct :: rat
  long_normal_pct :: rat
  long_spike_pct :: rat
  lr_top_long_queries :: "(lr_long_query \<times> string) list"
  lock_normal_pct :: rat
  lock_spike_pct :: rat
  lr_lock_types :: "(jval \<times> nat \<times> rat) list"
  normal_wait_types :: "(jval \<times> nat \<times> rat) list"
  spike_wait_types :: "(jval \<times> nat \<times> rat) list"
  normal_wait_pct :: "(jval \<times> nat \<times> rat) list"
  spike_wait_pct :: "(jval \<times> nat \<times> rat) list"
  top_applications :: "(jval \<times> nat \<times> rat) list"
  new_apps :: "jval fset"
  disappeared_apps :: "jval fset"

fun lr_top_long :: "lr_long_query list \<Rightarrow> error + (lr_long_query \<times> string) list" where
  "lr_top_long [] = Inr []"
| "lr_top_long (q # qs) =
     bindE (slice_to 60 (lrq_app q)) (\<lambda>a.
     bindE (lr_top_long qs) (\<lambda>r. Inr ((q, a) # r)))"

text \<open>
  \<^verbatim>\<open>pct = (count / total) * 100\<close> for each entry of a frequency table, with no guard on
  the total.
\<close>

fun pct_table :: "(jval \<times> nat) list \<Rightarrow> nat \<Rightarrow> error + (jval \<times> nat \<times> rat) list" where
  "pct_table [] tot = Inr []"
| "pct_table ((k, count) # r) tot =
     bindE (py_div (of_nat count) (of_nat tot)) (\<lambda>d.
     bindE (pct_table r tot) (\<lambda>t. Inr ((k, count, f_mul d 100) # t)))"

text \<open>
  \<^verbatim>\<open>compare_changes(server_name, normal, spike)\<close>. A summary is \<open>None\<close> when
  \<^verbatim>\<open>extract_metrics\<close> returned \<^verbatim>\<open>None\<close>; subscripting it is a TypeError. The model
  returns the values the report is written from. The list of wait event types whose share
  changed by more than one point is left out: its order is the iteration order of a
  Python set, and computing it raises nothing.
\<close>

definition compare_changes :: "string \<Rightarrow> lr_summary option \<Rightarrow> lr_summary option
    \<Rightarrow> error + lr_report" where
  "compare_changes server_name normal spike =
     (case spike of None \<Rightarrow> Inl TypeError | Some sp \<Rightarrow>
     (case normal of None \<Rightarrow> Inl TypeError | Some no \<Rightarrow>
      let load_change = f_sub (load_avg sp) (load_avg no) in
      bindE (py_div load_change (load_avg no)) (\<lambda>lq.
      let load_pct = f_mul lq 100;
          query_change = f_sub (active_queries_avg sp) (active_queries_avg no) in
      bindE (py_div query_change (active_queries_avg no)) (\<lambda>qq.
      let query_pct = f_mul qq 100;
          long_normal_pct = (if total_queries no > 0
            then percent (rat_of_nat (length (lr_long_queries no))) (rat_of_nat (total_queries no))
            else 0);
          long_spike_pct = (if total_queries sp > 0
            then percent (rat_of_nat (length (lr_long_queries sp))) (rat_of_nat (total_queries sp))
            else 0) in
      bindE (if length (lr_long_queries sp) > 0
             then lr_top_long (take 5 (sort_key (\<lambda>x. - lrq_duration x) (lr_long_queries sp)))
             else Inr []) (\<lambda>top.
      let lock_normal_pct = (if total_queries no > 0
            then percent (rat_of_nat (length (lr_lock_waits no))) (rat_of_nat (total_queries no))
            else 0);
          lock_spike_pct = (if total_queries sp > 0
            then percent (rat_of_nat (length (lr_lock_waits sp))) (rat_of_nat (total_queries sp))
            else 0) in
      bindE (if length (lr_lock_waits sp) > 0
             then pct_table (most_common 5 (Counter (map lrl_wait (lr_lock_waits sp))))
                    (length (lr_lock_waits sp))
             else Inr []) (\<lambda>locks.
      bindE (pct_table (most_common 5 (lr_wait_event_types no)) (total_queries no)) (\<lambda>nw.
      bindE (pct_table (most_common 5 (lr_wait_event_types sp)) (total_queries sp)) (\<lambda>sw.
      bindE (pct_table (lr_wait_event_types no) (total_queries no)) (\<lambda>nwp.
      bindE (pct_table (lr_wait_event_types sp) (total_queries sp)) (\<lambda>swp.
      bindE (pct_table (most_common 10 (lr_applications sp)) (total_queries sp)) (\<lambda>apps.
      let normal_apps = fset_of_list (map fst (lr_applications no));
          spike_apps = fset_of_list (map fst (lr_applications sp));
          new_apps = spike_apps |-| normal_apps;
          disappeared_apps = normal_apps |-| spike_apps in
      if new_apps \<noteq> {||} \<and> total_queries sp = 0 then Inl ZeroDivisionError
      else if disappeared_apps \<noteq> {||} \<and> total_queries no = 0 then Inl ZeroDivisionError
      else
        Inr \<lparr>load_change = load_change, lr_load_pct = load_pct,
             query_change = query_change, lr_query_pct = query_pct,
             long_normal_pct = long_normal_pct, long_spike_pct = long_spike_pct,
             lr_top_long_queries = top,
             lock_normal_pct = lock_normal_pct, lock_spike_pct = lock_spike_pct,
             lr_lock_types = locks,
             normal_wait_types = nw, spike_wait_types = sw,
             normal_wait_pct = nwp, spike_wait_pct = swp,
             top_applications = apps,
             new_apps = new_apps, disappeared_apps = disappeared_apps\<rparr>)))))))))))"

section \<open>The two pipelines\<close>

text \<open>
  What \<^verbatim>\<open>main\<close> of \<^verbatim>\<open>analyze_pg_spike.py\<close> computes from the snapshots of the two
  periods, the reading and writing of files left out: both periods are extracted, then
  compared.
\<close>

definition analyze :: "snapshot list \<Rightarrow> snapshot list \<Rightarrow> error + report \<times> summary \<times> summary" where
  "analyze normal_snapshots spike_snapshots =
     bindE (extract_metrics normal_snapshots) (\<lambda>normal_metrics.
     bindE (extract_metrics spike_snapshots) (\<lambda>spike_metrics.
       compare_metrics normal_metrics spike_metrics))"

text \<open>
  What \<^verbatim>\<open>main\<close> of \<^verbatim>\<open>compare_leader_replica.py\<close> computes for one server: both periods
  are extracted and passed to \<^verbatim>\<open>compare_changes\<close>, whatever the extractor returned.
\<close>

definition analyze_server :: "string \<Rightarrow> snapshot list \<Rightarrow> snapshot list \<Rightarrow> error + lr_report" where
  "analyze_server server_name normal_snapshots spike_snapshots =
     bindE (lr_extract_metrics normal_snapshots) (\<lambda>normal.
     bindE (lr_extract_metrics spike_snapshots) (\<lambda>spike.
       compare_changes server_name normal spike))"

section \<open>Notions used to state the properties\<close>

text \<open>
  The query observations of a list of snapshots, in the order the extractors visit them,
  and the entries the extractors keep for a long query and for a lock wait.
\<close>

definition observations :: "snapshot list \<Rightarrow> query list" where
  "observations S = concat (map queries_of S)"

fun exceeds :: "jval \<Rightarrow> rat \<Rightarrow> bool" where
  "exceeds (JNum d) t = (d > t)"
| "exceeds (JStr _) t = False"

fun num_of :: "jval \<Rightarrow> rat" where
  "num_of (JNum d) = d"
| "num_of (JStr _) = 0"

fun str_of :: "jval \<Rightarrow> string" where
  "str_of (JStr s) = s"
| "str_of (JNum _) = []"

fun is_num :: "jval \<Rightarrow> bool" where
  "is_num (JNum _) = True"
| "is_num (JStr _) = False"

text \<open>
  A long query is an observation whose duration is strictly greater than 10; a lock wait
  is one whose wait event type is the string \<^verbatim>\<open>Lock\<close>. The defaults are those of
  \<^verbatim>\<open>query.get\<close> in the extractors.
\<close>

definition is_long :: "query \<Rightarrow> bool" where
  "is_long q = exceeds (get q ''query_duration_sec'' (JNum 0)) 10"

definition is_lock :: "query \<Rightarrow> bool" where
  "is_lock q = (get q ''wait_event_type'' (JStr ''unknown'') = JStr ''Lock'')"

definition long_entry :: "query \<Rightarrow> long_query" where
  "long_entry q = \<lparr>lq_duration = num_of (get q ''query_duration_sec'' (JNum 0)),
     lq_app = get q ''application_name'' (JStr ''unknown''),
     lq_wait = get q ''wait_event'' (JStr ''unknown''),
     lq_wait_type = get q ''wait_event_type'' (JStr ''unknown''),
     lq_preview = take 150 (str_of (get q ''query_preview'' (JStr '''')))\<rparr>"

definition lock_entry :: "query \<Rightarrow> lock_wait" where
  "lock_entry q = \<lparr>lw_duration = num_of (get q ''query_duration_sec'' (JNum 0)),
     lw_app = get q ''application_name'' (JStr ''unknown''),
     lw_wait = get q ''wait_event'' (JStr ''unknown''),
     lw_preview = take 150 (str_of (get q ''query_preview'' (JStr '''')))\<rparr>"

definition lr_long_entry :: "query \<Rightarrow> lr_long_query" where
  "lr_long_entry q = \<lparr>lrq_duration = num_of (get q ''query_duration_sec'' (JNum 0)),
     lrq_app = get q ''application_name'' (JStr ''unknown''),
     lrq_wait = get q ''wait_event'' (JStr ''unknown''),
     lrq_wait_type = get q ''wait_event_type'' (JStr ''unknown'')\<rparr>"

definition lr_lock_entry :: "query \<Rightarrow> lr_lock_wait" where
  "lr_lock_entry q = \<lparr>lrl_duration = num_of (get q ''query_duration_sec'' (JNum 0)),
     lrl_app = get q ''application_name'' (JStr ''unknown''),
     lrl_wait = get q ''wait_event'' (JStr ''unknown'')\<rparr>"

text \<open>
  The input the extractors are written for: the duration of an observation is a number
  and its preview a string (the two values whose type they depend on), and a snapshot has
  the four numeric fields.
\<close>

definition well_formed :: "query \<Rightarrow> bool" where
  "well_formed q = (is_num (get q ''query_duration_sec'' (JNum 0))
     \<and> \<not> is_num (get q ''query_preview'' (JStr '''')))"

definition has_fields :: "snapshot \<Rightarrow> bool" where
  "has_fields s = (load_avg_1m s \<noteq> None \<and> load_avg_5m s \<noteq> None
     \<and> load_avg_15m s \<noteq> None \<and> active_query_count s \<noteq> None)"

text \<open>
  The spike summary after \<^verbatim>\<open>compare_metrics\<close>: its long queries are sorted.
\<close>

definition sorted_spike :: "summary \<Rightarrow> summary" where
  "sorted_spike spike = (if long_queries spike \<noteq> []
     then spike\<lparr>long_queries := sort_by_duration (long_queries spike)\<rparr> else spike)"

text \<open>
  The summaries on which \<^verbatim>\<open>compare_metrics\<close> raises no TypeError: the durations are
  numbers, and the applications of the spike's long queries and lock waits are strings.
  The summaries \<^verbatim>\<open>extract_metrics\<close> returns are such when the application names of the
  spike's observations are strings (\<open>textual_apps\<close>).
\<close>

definition comparable :: "summary \<Rightarrow> summary \<Rightarrow> bool" where
  "comparable normal spike =
     (list_all is_num (query_durations normal) \<and> list_all is_num (query_durations spike)
      \<and> list_all (\<lambda>q. \<not> is_num (lq_app q)) (long_queries spike)
      \<and> list_all (\<lambda>l. \<not> is_num (lw_app l)) (lock_waits spike))"

definition textual_apps :: "snapshot list \<Rightarrow> bool" where
  "textual_apps S = list_all (\<lambda>q. \<not> is_num (get q ''application_name'' (JStr ''unknown'')))
     (observations S)"

text \<open>
  The five rules of the findings, each as a function of the baseline \<open>B\<close> and the variant
  \<open>V\<close> alone: the finding it emits when it fires, and nothing otherwise. \<open>rules\<close> is what
  they emit, in the order of their declaration. The thresholds and the percentage of the
  load are computed in floating point, as \<^verbatim>\<open>len(...) * 1.5\<close>, \<^verbatim>\<open>len(...) * 1.2\<close> and
  \<^verbatim>\<open>(delta / baseline) * 100\<close>.
\<close>

definition rule_long_queries :: "summary \<Rightarrow> summary \<Rightarrow> finding list" where
  "rule_long_queries B V =
     (if rat_of_nat (length (long_queries V))
          > f_mul (rat_of_nat (length (long_queries B))) (rnd (3 / 2))
      then [LongQueriesIncreased (length (long_queries B)) (length (long_queries V))]
      else [])"

definition rule_lock_waits :: "summary \<Rightarrow> summary \<Rightarrow> finding list" where
  "rule_lock_waits B V =
     (if rat_of_nat (length (lock_waits V))
          > f_mul (rat_of_nat (length (lock_waits B))) (rnd (6 / 5))
      then [LockContentionIncreased (length (lock_waits B)) (length (lock_waits V))]
      else [])"

definition load_percent :: "summary \<Rightarrow> summary \<Rightarrow> rat" where
  "load_percent B V =
     (if st_avg (load_1m B) > 0
      then percent (f_sub (st_avg (load_1m V)) (st_avg (load_1m B))) (st_avg (load_1m B))
      else 0)"

definition rule_load :: "summary \<Rightarrow> summary \<Rightarrow> finding list" where
  "rule_load B V =
     (if \<bar>load_percent B V\<bar> > 10
      then [SystemLoadChanged (load_percent B V > 0) \<bar>load_percent B V\<bar>] else [])"

definition new_applications :: "summary \<Rightarrow> summary \<Rightarrow> jval fset" where
  "new_applications B V =
     fset_of_list (map fst (applications V)) |-| fset_of_list (map fst (applications B))"

definition rule_new_apps :: "summary \<Rightarrow> summary \<Rightarrow> finding list" where
  "rule_new_apps B V =
     (if new_applications B V \<noteq> {||} then [NewApplications (fcard (new_applications B V))]
      else [])"

definition rule_culprit :: "summary \<Rightarrow> finding list" where
  "rule_culprit V =
     (case most_common 1 (Counter (map lq_app (sort_by_duration (long_queries V)))) of
        [] \<Rightarrow> []
      | top_culprit # _ \<Rightarrow> [MainCulprit (fst top_culprit) (snd top_culprit)])"

definition rules :: "summary \<Rightarrow> summary \<Rightarrow> finding list" where
  "rules B V = rule_long_queries B V @ rule_lock_waits B V @ rule_load B V
     @ rule_new_apps B V @ rule_culprit V"

text \<open>
  The words of the specification on the query signature: every run of whitespace becomes
  one space. The flag of \<open>collapse\<close> says that the character before was whitespace.
  \<open>strip_ws\<close> removes the whitespace at both ends.
\<close>

fun collapse :: "bool \<Rightarrow> string \<Rightarrow> string" where
  "collapse b [] = []"
| "collapse b (c # cs) =
     (if is_space c then (if b then collapse True cs else CHR '' '' # collapse True cs)
      else c # collapse False cs)"

definition collapse_runs :: "string \<Rightarrow> string" where
  "collapse_runs s = collapse False s"

definition strip_ws :: "string \<Rightarrow> string" where
  "strip_ws s = rev (dropWhile is_space (rev (dropWhile is_space s)))"

section \<open>Example inputs\<close>

text \<open>
  Three observations and three snapshots. \<open>q_ten\<close> runs for exactly 10 seconds and waits
  on \<^verbatim>\<open>"lock"\<close>; \<open>q_over\<close> runs for 10.0001 seconds (the float of that literal) and waits on \<^verbatim>\<open>"Lock"\<close>;
  \<open>q_alice\<close> has a key \<^verbatim>\<open>username\<close> and no key \<^verbatim>\<open>usename\<close>. \<open>snap_b\<close> has no
  key \<^verbatim>\<open>queries\<close>.
\<close>

definition q_ten :: query where
  "q_ten = [''query_duration_sec'' \<mapsto> JNum 10, ''wait_event_type'' \<mapsto> JStr ''lock'',
     ''usename'' \<mapsto> JStr ''bob'']"

definition q_over :: query where
  "q_over = [''query_duration_sec'' \<mapsto> JNum (rnd (100001 / 10000)),
     ''wait_event_type'' \<mapsto> JStr ''Lock'', ''query_preview'' \<mapsto> JStr ''SELECT 1'']"

definition q_alice :: query where
  "q_alice = [''username'' \<mapsto> JStr ''alice'']"

definition snap_a :: snapshot where
  "snap_a = \<lparr>load_avg_1m = Some 1, load_avg_5m = Some 1, load_avg_15m = Some 1,
     active_query_count = Some 2, queries = Some [q_ten, q_over]\<rparr>"

definition snap_b :: snapshot where
  "snap_b = \<lparr>load_avg_1m = Some 2, load_avg_5m = Some 1, load_avg_15m = Some 1,
     active_query_count = Some 0, queries = None\<rparr>"

definition snap_c :: snapshot where
  "snap_c = \<lparr>load_avg_1m = Some 3, load_avg_5m = Some 1, load_avg_15m = Some 1,
     active_query_count = Some 1, queries = Some [q_alice]\<rparr>"

definition example_snapshots :: "snapshot list" where
  "example_snapshots = [snap_a, snap_b, snap_c]"

text \<open>
  Two periods with one query each, of two different applications; a snapshot with two long
  queries, the shorter first; an idle snapshot, with a load average of 0.
\<close>

definition q_svc_a :: query where
  "q_svc_a = [''query_duration_sec'' \<mapsto> JNum 5, ''application_name'' \<mapsto> JStr ''svc-a'',
     ''query_preview'' \<mapsto> JStr ''SELECT a'']"

definition q_svc_b :: query where
  "q_svc_b = [''query_duration_sec'' \<mapsto> JNum 5, ''application_name'' \<mapsto> JStr ''svc-b'',
     ''query_preview'' \<mapsto> JStr ''SELECT b'']"

definition snap_svc_a :: snapshot where
  "snap_svc_a = \<lparr>load_avg_1m = Some 1, load_avg_5m = Some 1, load_avg_15m = Some 1,
     active_query_count = Some 1, queries = Some [q_svc_a]\<rparr>"

definition snap_svc_b :: snapshot where
  "snap_svc_b = \<lparr>load_avg_1m = Some 1, load_avg_5m = Some 1, load_avg_15m = Some 1,
     active_query_count = Some 1, queries = Some [q_svc_b]\<rparr>"

definition q_11 :: query where
  "q_11 = [''query_duration_sec'' \<mapsto> JNum 11, ''query_preview'' \<mapsto> JStr ''SELECT 1'']"

definition q_20 :: query where
  "q_20 = [''query_duration_sec'' \<mapsto> JNum 20, ''query_preview'' \<mapsto> JStr ''SELECT 2'']"

definition snap_slow :: snapshot where
  "snap_slow = \<lparr>load_avg_1m = Some 4, load_avg_5m = Some 2, load_avg_15m = Some 1,
     active_query_count = Some 2, queries = Some [q_11, q_20]\<rparr>"

definition snap_idle :: snapshot where
  "snap_idle = \<lparr>load_avg_1m = Some 0, load_avg_5m = Some 0, load_avg_15m = Some 0,
     active_query_count = Some 0, queries = Some []\<rparr>"

text \<open>
  An observation whose preview has a space in front and two spaces inside, and one with an
  empty preview.
\<close>

definition q_padded :: query where
  "q_padded = [''query_preview'' \<mapsto> JStr '' SELECT  1'']"

definition q_no_preview :: query where
  "q_no_preview = [''query_preview'' \<mapsto> JStr '''', ''usename'' \<mapsto> JStr ''bob'']"

text \<open>
  A snapshot with no queries and one load average, and two comparisons at the threshold
  of 10 percent.
\<close>

definition snap_load :: "rat \<Rightarrow> snapshot" where
  "snap_load x = \<lparr>load_avg_1m = Some x, load_avg_5m = Some x, load_avg_15m = Some x,
     active_query_count = Some 0, queries = Some []\<rparr>"

section \<open>Floating-point numbers\<close>

lemma rnd_zero [simp]: "rnd 0 = 0"
  by (simp add: rnd_def)

text \<open>
  Some values of \<open>rnd\<close>: the floats of \<^verbatim>\<open>0.1\<close>, \<^verbatim>\<open>1.2\<close>, \<^verbatim>\<open>1.5\<close>, \<^verbatim>\<open>10 / 3\<close> and
  \<^verbatim>\<open>10.0001\<close>, and two integers above \<open>2 ^ 53\<close> half way between two doubles.
\<close>

lemma rnd_examples:
  "rnd (1 / 10) = 3602879701896397 / 36028797018963968
   \<and> rnd (6 / 5) = 5404319552844595 / 4503599627370496
   \<and> rnd (3 / 2) = 3 / 2
   \<and> rnd (10 / 3) = 7505999378950827 / 2251799813685248
   \<and> rnd (9007199254740993) = 9007199254740992
   \<and> rnd (9007199254740995) = 9007199254740996
   \<and> rnd (100001 / 10000) = 2814777914604231 / 281474976710656"
  by code_simp

section \<open>The extractors\<close>

lemma bindE_Inr: "bindE m f = Inr y \<longleftrightarrow> (\<exists>x. m = Inr x \<and> f x = Inr y)"
  by (cases m) (simp_all add: bindE_def)

lemma bindE_simps [simp]: "bindE (Inl e) f = Inl e" "bindE (Inr x) f = f x"
  by (simp_all add: bindE_def)

lemma process_query_fields:
  assumes "process_query l q = Inr l'"
  shows "query_durations_l l' = query_durations_l l @ [get q ''query_duration_sec'' (JNum 0)]"
    and "users_l l' = users_l l @ [get q ''usename'' (JStr ''unknown'')]"
    and "long_queries_l l' = long_queries_l l @ (if is_long q then [long_entry q] else [])"
    and "lock_waits_l l' = lock_waits_l l @ (if is_lock q then [lock_entry q] else [])"
    and "is_num (get q ''query_duration_sec'' (JNum 0))"
  using assms
  by (cases "get q ''query_duration_sec'' (JNum 0)"; cases "get q ''query_preview'' (JStr [])";
      simp add: process_query_def Let_def get_query_signature_def is_long_def long_entry_def
        is_lock_def lock_entry_def split: if_splits; fastforce)+

lemma process_query_total:
  assumes "well_formed q"
  shows "\<exists>l'. process_query l q = Inr l'"
  using assms
  by (cases "get q ''query_duration_sec'' (JNum 0)"; cases "get q ''query_preview'' (JStr [])";
      simp add: process_query_def Let_def get_query_signature_def well_formed_def)

lemma process_queries_fields:
  "process_queries l qs = Inr l' \<Longrightarrow>
     query_durations_l l' = query_durations_l l @ map (\<lambda>q. get q ''query_duration_sec'' (JNum 0)) qs
   \<and> users_l l' = users_l l @ map (\<lambda>q. get q ''usename'' (JStr ''unknown'')) qs
   \<and> long_queries_l l' = long_queries_l l @ map long_entry (filter is_long qs)
   \<and> lock_waits_l l' = lock_waits_l l @ map lock_entry (filter is_lock qs)
   \<and> list_all (\<lambda>q. is_num (get q ''query_duration_sec'' (JNum 0))) qs"
proof (induction qs arbitrary: l)
  case Nil
  then show ?case by simp
next
  case (Cons q qs)
  from Cons.prems obtain l1 where s: "process_query l q = Inr l1"
    and r: "process_queries l1 qs = Inr l'"
    by (auto simp: bindE_Inr)
  show ?case
    using Cons.IH [OF r] process_query_fields [OF s] by simp
qed

lemma process_queries_total:
  "list_all well_formed qs \<Longrightarrow> \<exists>l'. process_queries l qs = Inr l'"
proof (induction qs arbitrary: l)
  case Nil
  then show ?case by simp
next
  case (Cons q qs)
  then obtain l1 where "process_query l q = Inr l1"
    using process_query_total [of q l] by auto
  with Cons show ?case by simp
qed

lemma process_snapshots_fields:
  "process_snapshots l S = Inr l' \<Longrightarrow>
     query_durations_l l' = query_durations_l l
       @ map (\<lambda>q. get q ''query_duration_sec'' (JNum 0)) (observations S)
   \<and> users_l l' = users_l l @ map (\<lambda>q. get q ''usename'' (JStr ''unknown'')) (observations S)
   \<and> long_queries_l l' = long_queries_l l @ map long_entry (filter is_long (observations S))
   \<and> lock_waits_l l' = lock_waits_l l @ map lock_entry (filter is_lock (observations S))
   \<and> list_all (\<lambda>q. is_num (get q ''query_duration_sec'' (JNum 0))) (observations S)"
proof (induction S arbitrary: l)
  case Nil
  then show ?case by (simp add: observations_def)
next
  case (Cons s S)
  from Cons.prems obtain l1 where s: "process_queries l (queries_of s) = Inr l1"
    and r: "process_snapshots l1 S = Inr l'"
    by (auto simp: bindE_Inr)
  show ?case
    using Cons.IH [OF r] process_queries_fields [OF s] by (simp add: observations_def)
qed

lemma process_snapshots_total:
  "list_all well_formed (observations S) \<Longrightarrow> \<exists>l'. process_snapshots l S = Inr l'"
proof (induction S arbitrary: l)
  case Nil
  then show ?case by simp
next
  case (Cons s S)
  then obtain l1 where "process_queries l (queries_of s) = Inr l1"
    using process_queries_total [of "queries_of s" l] by (auto simp: observations_def)
  with Cons show ?case by (simp add: observations_def)
qed

lemma column_total:
  "\<forall>s \<in> set S. f s \<noteq> None \<Longrightarrow> \<exists>vs. column key f S = Inr vs \<and> length vs = length S"
  by (induction S) auto

lemma stats_total: "xs \<noteq> [] \<Longrightarrow> \<exists>st. stats xs = Inr st"
  by (cases xs) (simp_all add: stats_def py_min_def py_max_def mean_def median_def Let_def)

lemma bindE_InrE:
  assumes "bindE m f = Inr y"
  obtains x where "m = Inr x" and "f x = Inr y"
  using assms by (cases m) simp_all

lemma extract_metrics_Inr:
  assumes "extract_metrics S = Inr m"
  shows "\<exists>l. process_snapshots init_locals S = Inr l
    \<and> total_queries_observed m = length (query_durations_l l)
    \<and> query_durations m = query_durations_l l
    \<and> users m = Counter (users_l l)
    \<and> long_queries m = long_queries_l l
    \<and> lock_waits m = lock_waits_l l"
  using assms unfolding extract_metrics_def
  by (elim bindE_InrE) auto

lemma extract_metrics_total:
  assumes "S \<noteq> []" and "list_all has_fields S"
    and "list_all well_formed (observations S)"
  shows "\<exists>m. extract_metrics S = Inr m"
proof -
  have hf: "\<forall>s \<in> set S. has_fields s"
    using assms(2) by (simp add: list_all_iff)
  obtain a where a: "column ''load_avg_1m'' load_avg_1m S = Inr a" "length a = length S"
    using column_total [of S load_avg_1m] hf by (auto simp: has_fields_def)
  obtain b where b: "column ''load_avg_5m'' load_avg_5m S = Inr b" "length b = length S"
    using column_total [of S load_avg_5m] hf by (auto simp: has_fields_def)
  obtain c where c: "column ''load_avg_15m'' load_avg_15m S = Inr c" "length c = length S"
    using column_total [of S load_avg_15m] hf by (auto simp: has_fields_def)
  obtain d where d: "column ''active_query_count'' active_query_count S = Inr d"
    "length d = length S"
    using column_total [of S active_query_count] hf by (auto simp: has_fields_def)
  obtain l where l: "process_snapshots init_locals S = Inr l"
    using process_snapshots_total [OF assms(3)] by blast
  have "a \<noteq> []" using a(2) assms(1) by auto
  then obtain sa where sa: "stats a = Inr sa" using stats_total by blast
  have "b \<noteq> []" using b(2) assms(1) by auto
  then obtain sb where sb: "stats b = Inr sb" using stats_total by blast
  have "c \<noteq> []" using c(2) assms(1) by auto
  then obtain sc where sc: "stats c = Inr sc" using stats_total by blast
  have "d \<noteq> []" using d(2) assms(1) by auto
  then obtain sd where sd: "stats d = Inr sd" using stats_total by blast
  show ?thesis
    unfolding extract_metrics_def by (simp add: a(1) b(1) c(1) d(1) l sa sb sc sd)
qed


lemma lr_process_query_fields:
  assumes "lr_process_query l q = Inr l'"
  shows "lr_query_durations_l l'
      = lr_query_durations_l l @ [get q ''query_duration_sec'' (JNum 0)]"
    and "lr_long_queries_l l'
      = lr_long_queries_l l @ (if is_long q then [lr_long_entry q] else [])"
    and "lr_lock_waits_l l'
      = lr_lock_waits_l l @ (if is_lock q then [lr_lock_entry q] else [])"
    and "is_num (get q ''query_duration_sec'' (JNum 0))"
  using assms
  by (cases "get q ''query_duration_sec'' (JNum 0)";
      auto simp add: lr_process_query_def Let_def is_long_def lr_long_entry_def
        is_lock_def lr_lock_entry_def split: if_splits)+

lemma lr_process_query_total:
  assumes "well_formed q"
  shows "\<exists>l'. lr_process_query l q = Inr l'"
  using assms
  by (cases "get q ''query_duration_sec'' (JNum 0)";
      simp add: lr_process_query_def Let_def well_formed_def)

lemma lr_process_queries_fields:
  "lr_process_queries l qs = Inr l' \<Longrightarrow>
     lr_query_durations_l l'
       = lr_query_durations_l l @ map (\<lambda>q. get q ''query_duration_sec'' (JNum 0)) qs
   \<and> lr_long_queries_l l' = lr_long_queries_l l @ map lr_long_entry (filter is_long qs)
   \<and> lr_lock_waits_l l' = lr_lock_waits_l l @ map lr_lock_entry (filter is_lock qs)
   \<and> list_all (\<lambda>q. is_num (get q ''query_duration_sec'' (JNum 0))) qs"
proof (induction qs arbitrary: l)
  case Nil
  then show ?case by simp
next
  case (Cons q qs)
  from Cons.prems obtain l1 where s: "lr_process_query l q = Inr l1"
    and r: "lr_process_queries l1 qs = Inr l'"
    by (auto simp: bindE_Inr)
  show ?case
    using Cons.IH [OF r] lr_process_query_fields [OF s] by simp
qed

lemma lr_process_queries_total:
  "list_all well_formed qs \<Longrightarrow> \<exists>l'. lr_process_queries l qs = Inr l'"
proof (induction qs arbitrary: l)
  case Nil
  then show ?case by simp
next
  case (Cons q qs)
  then obtain l1 where "lr_process_query l q = Inr l1"
    using lr_process_query_total [of q l] by auto
  with Cons show ?case by simp
qed

lemma lr_process_snapshots_fields:
  "lr_process_snapshots l S = Inr l' \<Longrightarrow>
     lr_query_durations_l l' = lr_query_durations_l l
       @ map (\<lambda>q. get q ''query_duration_sec'' (JNum 0)) (observations S)
   \<and> lr_long_queries_l l'
       = lr_long_queries_l l @ map lr_long_entry (filter is_long (observations S))
   \<and> lr_lock_waits_l l'
       = lr_lock_waits_l l @ map lr_lock_entry (filter is_lock (observations S))
   \<and> list_all (\<lambda>q. is_num (get q ''query_duration_sec'' (JNum 0))) (observations S)"
proof (induction S arbitrary: l)
  case Nil
  then show ?case by (simp add: observations_def)
next
  case (Cons s S)
  from Cons.prems obtain l1 where s: "lr_process_queries l (queries_of s) = Inr l1"
    and r: "lr_process_snapshots l1 S = Inr l'"
    by (auto simp: bindE_Inr)
  show ?case
    using Cons.IH [OF r] lr_process_queries_fields [OF s] by (simp add: observations_def)
qed

lemma lr_process_snapshots_total:
  "list_all well_formed (observations S) \<Longrightarrow> \<exists>l'. lr_process_snapshots l S = Inr l'"
proof (induction S arbitrary: l)
  case Nil
  then show ?case by simp
next
  case (Cons s S)
  then obtain l1 where "lr_process_queries l (queries_of s) = Inr l1"
    using lr_process_queries_total [of "queries_of s" l] by (auto simp: observations_def)
  with Cons show ?case by (simp add: observations_def)
qed

lemma nums_total: "list_all is_num vs \<Longrightarrow> \<exists>ns. nums vs = Inr ns \<and> length ns = length vs"
proof (induction vs)
  case Nil
  then show ?case by simp
next
  case (Cons v vs)
  then show ?case by (cases v) auto
qed

lemma mean_total: "xs \<noteq> [] \<Longrightarrow> \<exists>a. mean xs = Inr a"
  by (simp add: mean_def)

lemma lr_extract_metrics_Inr:
  assumes "lr_extract_metrics S = Inr (Some m)"
  shows "\<exists>l. lr_process_snapshots lr_init_locals S = Inr l
    \<and> total_queries m = length (lr_query_durations_l l)
    \<and> lr_long_queries m = lr_long_queries_l l
    \<and> lr_lock_waits m = lr_lock_waits_l l"
proof (cases "S = []")
  case True
  with assms show ?thesis by (simp add: lr_extract_metrics_def)
next
  case False
  with assms have "bindE (column ''load_avg_1m'' load_avg_1m S) (\<lambda>l1m.
        bindE (column ''active_query_count'' active_query_count S) (\<lambda>active_counts.
        bindE (lr_process_snapshots lr_init_locals S) (\<lambda>l.
        bindE (mean l1m) (\<lambda>la.
        bindE (mean active_counts) (\<lambda>aa.
        bindE (if lr_query_durations_l l \<noteq> []
               then bindE (nums (lr_query_durations_l l)) mean else Inr 0) (\<lambda>ad.
          Inr (Some \<lparr>lr_snapshot_count = length S,
                     load_avg = la,
                     active_queries_avg = aa,
                     total_queries = length (lr_query_durations_l l),
                     lr_wait_event_types = Counter (lr_wait_event_types_l l),
                     lr_wait_events = Counter (lr_wait_events_l l),
                     lr_applications = Counter (lr_applications_l l),
                     lr_long_queries = lr_long_queries_l l,
                     lr_lock_waits = lr_lock_waits_l l,
                     avg_duration = ad\<rparr>))))))) = Inr (Some m)"
    by (simp add: lr_extract_metrics_def)
  then show ?thesis
    by (elim bindE_InrE) auto
qed

lemma lr_extract_metrics_total:
  assumes "S \<noteq> []" and "list_all has_fields S"
    and "list_all well_formed (observations S)"
  shows "\<exists>m. lr_extract_metrics S = Inr (Some m)"
proof -
  have hf: "\<forall>s \<in> set S. has_fields s"
    using assms(2) by (simp add: list_all_iff)
  obtain a where a: "column ''load_avg_1m'' load_avg_1m S = Inr a" "length a = length S"
    using column_total [of S load_avg_1m] hf by (auto simp: has_fields_def)
  obtain d where d: "column ''active_query_count'' active_query_count S = Inr d"
    "length d = length S"
    using column_total [of S active_query_count] hf by (auto simp: has_fields_def)
  obtain l where l: "lr_process_snapshots lr_init_locals S = Inr l"
    using lr_process_snapshots_total [OF assms(3)] by blast
  have "a \<noteq> []" using a(2) assms(1) by auto
  then obtain ma where ma: "mean a = Inr ma" using mean_total by blast
  have "d \<noteq> []" using d(2) assms(1) by auto
  then obtain md where md: "mean d = Inr md" using mean_total by blast
  have "list_all is_num (lr_query_durations_l l)"
    using lr_process_snapshots_fields [OF l]
    by (simp add: lr_init_locals_def list_all_iff)
  then obtain ns where ns: "nums (lr_query_durations_l l) = Inr ns"
    "length ns = length (lr_query_durations_l l)"
    using nums_total by blast
  obtain ad where ad: "(if lr_query_durations_l l \<noteq> []
               then bindE (nums (lr_query_durations_l l)) mean else Inr 0) = Inr ad"
  proof (cases "lr_query_durations_l l = []")
    case True
    then show ?thesis using that by simp
  next
    case False
    then have "ns \<noteq> []" using ns(2) by auto
    then obtain x where "mean ns = Inr x" using mean_total by blast
    then show ?thesis using that False ns(1) by simp
  qed
  show ?thesis
    unfolding lr_extract_metrics_def using assms(1) by (simp add: a(1) d(1) l ma md ad)
qed

lemma sum_lengths_observations:
  "sum_list (map (\<lambda>s. length (queries_of s)) S) = length (observations S)"
  by (simp add: observations_def length_concat comp_def)

section \<open>The comparison\<close>

lemma length_sort_by_duration [simp]: "length (sort_by_duration xs) = length xs"
  by (simp add: sort_by_duration_def)

lemma sort_by_duration_empty [simp]: "sort_by_duration [] = []"
  by (simp add: sort_by_duration_def)

lemma sort_by_duration_Nil [simp]: "sort_by_duration xs = [] \<longleftrightarrow> xs = []"
  by (metis length_0_conv length_sort_by_duration)

lemma set_sort_by_duration [simp]: "set (sort_by_duration xs) = set xs"
  by (simp add: sort_by_duration_def)

lemma counter_add_keys: "fst ` set (counter_add x c) = insert x (fst ` set c)"
  by (induction x c rule: counter_add.induct) (auto split: if_splits)

lemma Counter_foldl_keys:
  "fst ` set (foldl (\<lambda>c x. counter_add x c) c xs) = fst ` set c \<union> set xs"
  by (induction xs arbitrary: c) (simp_all add: counter_add_keys)

lemma Counter_keys: "fst ` set (Counter xs) = set xs"
  by (simp add: Counter_def Counter_foldl_keys)

lemma Counter_Nil [simp]: "Counter [] = []"
  by (simp add: Counter_def)

lemma Counter_nonempty: "xs \<noteq> [] \<Longrightarrow> Counter xs \<noteq> []"
  using Counter_keys [of xs] by auto

lemma most_common_set: "set (most_common n c) \<subseteq> set c"
  using set_take_subset [of n "sort_key (\<lambda>kc. - int (snd kc)) c"]
  by (simp add: most_common_def)

lemma most_common_Nil [simp]: "most_common n [] = []"
  by (simp add: most_common_def)

lemma most_common_nonempty: "c \<noteq> [] \<Longrightarrow> most_common 1 c \<noteq> []"
proof -
  assume "c \<noteq> []"
  then have "sort_key (\<lambda>kc. - int (snd kc)) c \<noteq> []"
    by (metis length_0_conv length_sort)
  then show ?thesis
    by (cases "sort_key (\<lambda>kc. - int (snd kc)) c") (simp_all add: most_common_def)
qed

lemma top_long_total:
  "list_all (\<lambda>q. \<not> is_num (lq_app q)) qs \<Longrightarrow> \<exists>r. top_long qs = Inr r"
proof (induction qs)
  case Nil
  then show ?case by simp
next
  case (Cons q qs)
  then show ?case by (cases "lq_app q") auto
qed

lemma top_apps_total:
  "list_all (\<lambda>kc. \<not> is_num (fst kc)) c \<Longrightarrow> \<exists>t. top_apps n c = Inr t"
proof (induction c)
  case Nil
  then show ?case by simp
next
  case (Cons kc c)
  obtain k v where kc: "kc = (k, v)" by (cases kc)
  with Cons show ?case by (cases k) auto
qed

lemma lock_breakdown_total:
  assumes "list_all (\<lambda>l. \<not> is_num (lw_app l)) lws"
  shows "\<exists>b. lock_breakdown lws types = Inr b"
proof (induction types)
  case Nil
  then show ?case by simp
next
  case (Cons ty types)
  let ?locks = "filter (\<lambda>lock. lw_wait lock = JStr ty) lws"
  have "fst ` set (most_common 5 (Counter (map lw_app ?locks))) \<subseteq> lw_app ` set lws"
    using most_common_set [of 5 "Counter (map lw_app ?locks)"]
      Counter_keys [of "map lw_app ?locks"] by auto
  then have "list_all (\<lambda>kc. \<not> is_num (fst kc)) (most_common 5 (Counter (map lw_app ?locks)))"
    using assms by (auto simp: list_all_iff)
  then obtain t where "top_apps (length ?locks) (most_common 5 (Counter (map lw_app ?locks)))
      = Inr t"
    using top_apps_total by blast
  with Cons show ?case by (auto simp: Let_def)
qed


lemma median_total:
  assumes "xs \<noteq> []"
  shows "\<exists>a. median xs = Inr a"
proof (cases "odd (length (sort xs))")
  case True
  with assms have "median xs = Inr (sort xs ! (length (sort xs) div 2))"
    by (simp add: median_def Let_def)
  then show ?thesis by blast
next
  case False
  with assms have "median xs = Inr (f_div (f_add (sort xs ! (length (sort xs) div 2 - 1))
      (sort xs ! (length (sort xs) div 2))) 2)"
    by (simp add: median_def Let_def)
  then show ?thesis by blast
qed

lemma py_max_total: "xs \<noteq> [] \<Longrightarrow> \<exists>a. py_max xs = Inr a"
  by (cases xs) (simp_all add: py_max_def)

lemma duration_analysis_total:
  assumes "list_all is_num (query_durations normal)"
    and "list_all is_num (query_durations spike)"
  shows "\<exists>d. duration_analysis normal spike = Inr d"
proof (cases "query_durations normal \<noteq> [] \<and> query_durations spike \<noteq> []")
  case False
  then show ?thesis by (auto simp: duration_analysis_def)
next
  case True
  obtain a where a: "nums (query_durations normal) = Inr a"
    "length a = length (query_durations normal)"
    using nums_total [OF assms(1)] by blast
  obtain b where b: "nums (query_durations spike) = Inr b"
    "length b = length (query_durations spike)"
    using nums_total [OF assms(2)] by blast
  have ne: "a \<noteq> []" "b \<noteq> []" using a(2) b(2) True by auto
  obtain ma where ma: "mean a = Inr ma" using mean_total [OF ne(1)] by blast
  obtain mb where mb: "mean b = Inr mb" using mean_total [OF ne(2)] by blast
  obtain da where da: "median a = Inr da" using median_total [OF ne(1)] by blast
  obtain db where db: "median b = Inr db" using median_total [OF ne(2)] by blast
  obtain xa where xa: "py_max a = Inr xa" using py_max_total [OF ne(1)] by blast
  obtain xb where xb: "py_max b = Inr xb" using py_max_total [OF ne(2)] by blast
  show ?thesis
    unfolding duration_analysis_def using True
    by (simp add: a(1) b(1) ma mb da db xa xb Let_def)
qed

lemma sorted_spike_simps [simp]:
  "long_queries (sorted_spike s) = sort_by_duration (long_queries s)"
  "lock_waits (sorted_spike s) = lock_waits s"
  "query_signatures (sorted_spike s) = query_signatures s"
  "applications (sorted_spike s) = applications s"
  by (simp_all add: sorted_spike_def sort_by_duration_def)

lemma key_findings_rules:
  "key_findings normal (sorted_spike spike) (load_percent normal spike)
      (new_applications normal spike)
     = Inr (if rules normal spike = [] then [NoSignificantDifferences]
            else rules normal spike)"
proof (cases "long_queries spike = []")
  case True
  then show ?thesis
    by (simp add: key_findings_def Let_def rules_def rule_culprit_def rule_long_queries_def
        rule_lock_waits_def rule_load_def rule_new_apps_def)
next
  case False
  then have "most_common 1 (Counter (map lq_app (sort_by_duration (long_queries spike)))) \<noteq> []"
    using most_common_nonempty [OF Counter_nonempty,
        of "map lq_app (sort_by_duration (long_queries spike))"] by simp
  then obtain tc rest where
    tc: "most_common 1 (Counter (map lq_app (sort_by_duration (long_queries spike)))) = tc # rest"
    by (cases "most_common 1 (Counter (map lq_app (sort_by_duration (long_queries spike))))")
      auto
  from False show ?thesis
    using tc
    by (simp add: key_findings_def Let_def rules_def rule_culprit_def rule_long_queries_def
        rule_lock_waits_def rule_load_def rule_new_apps_def)
qed

lemma compare_metrics_unfold:
  "compare_metrics normal spike =
     bindE (duration_analysis normal spike) (\<lambda>d.
     bindE (top_long (take 10 (sort_by_duration (long_queries spike)))) (\<lambda>t.
     bindE (if lock_waits spike \<noteq> []
            then lock_breakdown (lock_waits spike) [''transactionid'', ''tuple'', ''relation'']
            else Inr []) (\<lambda>b.
     Inr (\<lparr>load_diff = f_sub (st_avg (load_1m spike)) (st_avg (load_1m normal)),
            load_pct = load_percent normal spike,
            query_diff = f_sub (st_avg (active_queries spike)) (st_avg (active_queries normal)),
            query_pct = (if st_avg (active_queries normal) > 0
              then percent (f_sub (st_avg (active_queries spike)) (st_avg (active_queries normal)))
                     (st_avg (active_queries normal)) else 0),
            durations = d,
            top_long_queries = t,
            lock_types = b,
            both = query_signatures normal |\<inter>| query_signatures spike,
            only_in_spike = query_signatures spike |-| query_signatures normal,
            only_in_normal = query_signatures normal |-| query_signatures spike,
            only_spike_apps = new_applications normal spike,
            only_normal_apps = fset_of_list (map fst (applications normal))
               |-| fset_of_list (map fst (applications spike)),
            findings = (if rules normal spike = [] then [NoSignificantDifferences]
                        else rules normal spike)\<rparr>,
          normal, sorted_spike spike))))"
  unfolding compare_metrics_def Let_def sorted_spike_def [symmetric]
  by (simp only: sorted_spike_simps load_percent_def [symmetric]
      new_applications_def [symmetric] key_findings_rules bindE_simps)

section \<open>The query signature\<close>

lemma join_sp_Cons: "ws \<noteq> [] \<Longrightarrow> join_sp (w # ws) = w @ CHR '' '' # join_sp ws"
  by (cases ws) simp_all

lemma split_acc_nonempty:
  "t \<noteq> [] \<Longrightarrow> \<not> is_space (last t) \<Longrightarrow> split_acc w t \<noteq> []"
proof (induction t arbitrary: w)
  case Nil
  then show ?case by simp
next
  case (Cons c cs)
  show ?case
  proof (cases "cs = []")
    case True
    with Cons.prems show ?thesis by simp
  next
    case False
    with Cons.prems have "\<not> is_space (last cs)" by simp
    with False Cons.IH show ?thesis by simp
  qed
qed

lemma join_split_acc:
  "t = [] \<or> \<not> is_space (last t) \<Longrightarrow>
     join_sp (split_acc w t) = (if w = [] then collapse True t else w @ collapse False t)"
proof (induction t arbitrary: w)
  case Nil
  then show ?case by simp
next
  case (Cons c cs)
  show ?case
  proof (cases "is_space c")
    case True
    with Cons.prems have ne: "cs \<noteq> []" and l: "\<not> is_space (last cs)"
      by (auto split: if_splits)
    have ih: "join_sp (split_acc [] cs) = collapse True cs"
      using Cons.IH [of "[]"] l by simp
    show ?thesis
      using True ih split_acc_nonempty [OF ne l, of "[]"]
      by (simp add: join_sp_Cons)
  next
    case False
    from Cons.prems have "cs = [] \<or> \<not> is_space (last cs)"
      by (auto split: if_splits)
    then have "join_sp (split_acc (w @ [c]) cs) = (w @ [c]) @ collapse False cs"
      using Cons.IH [of "w @ [c]"] by simp
    with False show ?thesis by simp
  qed
qed

lemma split_acc_spaces:
  "list_all is_space sp \<Longrightarrow> split_acc w sp = (if w = [] then [] else [w])"
  by (induction sp arbitrary: w) simp_all

lemma split_acc_trailing:
  "list_all is_space sp \<Longrightarrow> split_acc w (s @ sp) = split_acc w s"
  by (induction s arbitrary: w) (simp_all add: split_acc_spaces)

lemma split_acc_leading: "split_acc [] (dropWhile is_space s) = split_acc [] s"
  by (induction s) simp_all

lemma rev_dropWhile_rev:
  "rev (dropWhile P (rev u)) @ rev (takeWhile P (rev u)) = u"
  by (metis rev_append rev_rev_ident takeWhile_dropWhile_id)

lemma str_split_strip_ws: "str_split (strip_ws s) = str_split s"
proof -
  let ?u = "dropWhile is_space s"
  have "list_all is_space (rev (takeWhile is_space (rev ?u)))"
    by (simp add: list_all_iff) (meson set_takeWhileD)
  then have "split_acc [] (strip_ws s @ rev (takeWhile is_space (rev ?u)))
      = split_acc [] (strip_ws s)"
    by (rule split_acc_trailing)
  then have "split_acc [] ?u = split_acc [] (strip_ws s)"
    by (simp add: strip_ws_def rev_dropWhile_rev)
  then show ?thesis
    by (simp add: str_split_def split_acc_leading)
qed

lemma strip_ws_last: "strip_ws s = [] \<or> \<not> is_space (last (strip_ws s))"
proof (cases "strip_ws s = []")
  case True
  then show ?thesis by simp
next
  case False
  then have ne: "dropWhile is_space (rev (dropWhile is_space s)) \<noteq> []"
    by (simp add: strip_ws_def)
  have "last (strip_ws s) = hd (dropWhile is_space (rev (dropWhile is_space s)))"
    using ne by (simp add: strip_ws_def last_rev)
  then show ?thesis using hd_dropWhile [OF ne] by simp
qed

lemma strip_ws_hd: "strip_ws s = [] \<or> \<not> is_space (hd (strip_ws s))"
proof (cases "strip_ws s = []")
  case True
  then show ?thesis by simp
next
  case False
  let ?u = "dropWhile is_space s"
  have u: "strip_ws s @ rev (takeWhile is_space (rev ?u)) = ?u"
    by (simp add: strip_ws_def rev_dropWhile_rev)
  then have "?u \<noteq> []" using False by (metis append_is_Nil_conv)
  then have "\<not> is_space (hd ?u)" by (rule hd_dropWhile)
  moreover have "hd ?u = hd (strip_ws s)"
    using u False by (metis hd_append2)
  ultimately show ?thesis by simp
qed

lemma collapse_True_False: "t = [] \<or> \<not> is_space (hd t) \<Longrightarrow> collapse True t = collapse False t"
  by (cases t) auto

lemma join_str_split: "join_sp (str_split s) = collapse_runs (strip_ws s)"
proof -
  have "join_sp (str_split s) = join_sp (split_acc [] (strip_ws s))"
    using str_split_strip_ws [of s] by (simp add: str_split_def)
  also have "\<dots> = collapse True (strip_ws s)"
    using join_split_acc [OF strip_ws_last, of "[]" s] by simp
  also have "\<dots> = collapse False (strip_ws s)"
    using collapse_True_False [OF strip_ws_hd] .
  finally show ?thesis by (simp add: collapse_runs_def)
qed

section \<open>Counters, totality of the comparison, cardinalities\<close>

lemma counter_get_add:
  "counter_get (counter_add x c) k = (if k = x then counter_get c k + 1 else counter_get c k)"
  by (induction c) (auto simp: counter_get_def)

lemma counter_get_foldl:
  "counter_get (foldl (\<lambda>c x. counter_add x c) c xs) k
     = counter_get c k + length (filter (\<lambda>x. x = k) xs)"
  by (induction xs arbitrary: c) (simp_all add: counter_get_add)

lemma counter_get_Counter: "counter_get (Counter xs) k = length (filter (\<lambda>x. x = k) xs)"
  by (simp add: Counter_def counter_get_foldl) (simp add: counter_get_def)

lemma compare_metrics_total:
  assumes "comparable normal spike"
  shows "\<exists>r. compare_metrics normal spike = Inr (r, normal, sorted_spike spike)
     \<and> load_pct r = load_percent normal spike
     \<and> both r = query_signatures normal |\<inter>| query_signatures spike
     \<and> only_in_spike r = query_signatures spike |-| query_signatures normal
     \<and> only_in_normal r = query_signatures normal |-| query_signatures spike
     \<and> only_spike_apps r = new_applications normal spike
     \<and> findings r = (if rules normal spike = [] then [NoSignificantDifferences]
                      else rules normal spike)"
proof -
  have lq: "list_all (\<lambda>q. \<not> is_num (lq_app q)) (take 10 (sort_by_duration (long_queries spike)))"
    using assms set_take_subset [of 10 "sort_by_duration (long_queries spike)"]
    by (auto simp: comparable_def list_all_iff)
  have lw: "list_all (\<lambda>l. \<not> is_num (lw_app l)) (lock_waits spike)"
    using assms by (simp add: comparable_def)
  obtain d where d: "duration_analysis normal spike = Inr d"
    using duration_analysis_total [of normal spike] assms by (auto simp: comparable_def)
  obtain t where t: "top_long (take 10 (sort_by_duration (long_queries spike))) = Inr t"
    using top_long_total [OF lq] by blast
  obtain b0 where b0: "lock_breakdown (lock_waits spike)
      [''transactionid'', ''tuple'', ''relation''] = Inr b0"
    using lock_breakdown_total [OF lw] by blast
  obtain b where b: "(if lock_waits spike \<noteq> []
             then lock_breakdown (lock_waits spike) [''transactionid'', ''tuple'', ''relation'']
             else Inr []) = Inr b"
    using b0 by metis
  show ?thesis
    by (simp only: compare_metrics_unfold d t b bindE_simps) simp
qed

lemma extract_metrics_comparable:
  assumes "extract_metrics S = Inr n" and "extract_metrics S' = Inr s"
    and "textual_apps S'"
  shows "comparable n s"
proof -
  obtain l where l: "process_snapshots init_locals S = Inr l"
    and qd: "query_durations n = query_durations_l l"
    using extract_metrics_Inr [OF assms(1)] by blast
  obtain l' where l': "process_snapshots init_locals S' = Inr l'"
    and qd': "query_durations s = query_durations_l l'"
    and lq: "long_queries s = long_queries_l l'"
    and lw: "lock_waits s = lock_waits_l l'"
    using extract_metrics_Inr [OF assms(2)] by blast
  have a: "list_all is_num (query_durations n)"
    using process_snapshots_fields [OF l] qd by (simp add: init_locals_def list_all_iff)
  have b: "list_all is_num (query_durations s)"
    using process_snapshots_fields [OF l'] qd' by (simp add: init_locals_def list_all_iff)
  have c: "list_all (\<lambda>q. \<not> is_num (lq_app q)) (long_queries s)"
    using process_snapshots_fields [OF l'] lq assms(3)
    by (simp add: init_locals_def list_all_iff textual_apps_def long_entry_def)
  have d: "list_all (\<lambda>q. \<not> is_num (lw_app q)) (lock_waits s)"
    using process_snapshots_fields [OF l'] lw assms(3)
    by (simp add: init_locals_def list_all_iff textual_apps_def lock_entry_def)
  show ?thesis
    using a b c d by (simp add: comparable_def)
qed

lemma card_partition:
  assumes "finite A" and "finite B"
  shows "card (A \<inter> B) + card (A - B) + card (B - A) = card (A \<union> B)"
proof -
  have "card (A \<inter> B) + card (A - B) = card A"
    using assms(1) by (metis card_Diff_subset_Int add.commute card_Int_Diff Int_commute)
  moreover have "card A + card (B - A) = card (A \<union> B)"
    using assms by (metis card_Un_disjoint Diff_disjoint finite_Diff Un_Diff_cancel)
  ultimately show ?thesis by simp
qed

lemma fcard_partition:
  "fcard (A |\<inter>| B) + fcard (A |-| B) + fcard (B |-| A) = fcard (A |\<union>| B)"
  by (simp add: fcard.rep_eq card_partition)

lemma process_query_no_preview:
  assumes "get q ''query_preview'' (JStr []) = JStr []"
    and "process_query l q = Inr l'"
  shows "query_signatures_l l' = query_signatures_l l"
  using assms
  by (cases "get q ''query_duration_sec'' (JNum 0)";
      simp add: process_query_def Let_def split: if_splits; fastforce)

text \<open>
  What \<^verbatim>\<open>compare_metrics\<close> leaves as it is: the normal summary, and every field of the
  spike summary but its long queries, which are sorted.
\<close>

lemma compare_metrics_frame:
  assumes "compare_metrics normal spike = Inr (r, n', s')"
  shows "n' = normal \<and> s' = spike\<lparr>long_queries := sort_by_duration (long_queries spike)\<rparr>"
proof -
  have "sorted_spike spike = spike\<lparr>long_queries := sort_by_duration (long_queries spike)\<rparr>"
    by (simp add: sorted_spike_def)
  with assms show ?thesis
    by (auto simp: compare_metrics_unfold elim!: bindE_InrE)
qed

section \<open>The example inputs\<close>

lemma example_snapshots_ok:
  "example_snapshots \<noteq> []" "list_all has_fields example_snapshots"
  "list_all well_formed (observations example_snapshots)"
  by (simp add: example_snapshots_def, code_simp, code_simp)

lemma svc_extracts:
  "\<exists>n s. extract_metrics [snap_svc_a] = Inr n \<and> extract_metrics [snap_svc_b] = Inr s
     \<and> comparable n s \<and> comparable n n"
proof -
  have a: "[snap_svc_a] \<noteq> []" "list_all has_fields [snap_svc_a]"
    "list_all well_formed (observations [snap_svc_a])"
    by (simp, code_simp, code_simp)
  have b: "[snap_svc_b] \<noteq> []" "list_all has_fields [snap_svc_b]"
    "list_all well_formed (observations [snap_svc_b])"
    by (simp, code_simp, code_simp)
  have ta: "textual_apps [snap_svc_a]" by code_simp
  have tb: "textual_apps [snap_svc_b]" by code_simp
  obtain n where n: "extract_metrics [snap_svc_a] = Inr n"
    using extract_metrics_total [OF a] by blast
  obtain s where s: "extract_metrics [snap_svc_b] = Inr s"
    using extract_metrics_total [OF b] by blast
  show ?thesis
    using n s extract_metrics_comparable [OF n s tb] extract_metrics_comparable [OF n n ta]
    by blast
qed

text \<open>
  The rounding of floats decides the load rule at the threshold. With loads 3, 3, 4 in
  the normal period and 3 in the spike, the mean is 3.3333333333333335 and the change
  -10.000000000000004 percent, which is reported; with the floats of 14.9 and 13.41 the
  change is -10.0 percent, which is not.
\<close>

lemma load_rule_at_the_threshold:
  "map_sum id (load_pct \<circ> fst) (analyze [snap_load 3, snap_load 3, snap_load 4] [snap_load 3])
     = Inr (- 2814749767106561 / 281474976710656)
   \<and> map_sum id (findings \<circ> fst) (analyze [snap_load 3, snap_load 3, snap_load 4] [snap_load 3])
     = Inr [SystemLoadChanged False (2814749767106561 / 281474976710656)]
   \<and> map_sum id (load_pct \<circ> fst)
       (analyze [snap_load (rnd (149 / 10))] [snap_load (rnd (1341 / 100))]) = Inr (- 10)
   \<and> map_sum id (findings \<circ> fst)
       (analyze [snap_load (rnd (149 / 10))] [snap_load (rnd (1341 / 100))])
     = Inr [NoSignificantDifferences]"
  by code_simp

section \<open>The properties\<close>

text \<open>
  C1. \<^verbatim>\<open>compare_changes\<close> of \<^verbatim>\<open>compare_leader_replica.py\<close> divides by the normal
  period's load average and by its average number of active queries with no guard. With a
  normal period whose load average is 0 it raises ZeroDivisionError, where
  \<^verbatim>\<open>compare_metrics\<close> reports a change of 0 percent for the same snapshots.
\<close>

theorem compare_changes_divides_by_zero_baseline:
  "map_sum id (map_option load_avg) (lr_extract_metrics [snap_idle]) = Inr (Some 0)
   \<and> analyze_server ''pg00 (Leader)'' [snap_idle] [snap_a] = Inl ZeroDivisionError
   \<and> map_sum id (load_pct \<circ> fst) (analyze [snap_idle] [snap_a]) = Inr 0
   \<and> map_sum id (query_pct \<circ> fst) (analyze [snap_idle] [snap_a]) = Inr 0"
  by code_simp

text \<open>
  C2. For a non-empty list of snapshots that all have the four numeric fields, and whose
  observations have a numeric duration and a textual preview, both extractors return a
  summary, and its total number of queries is the sum over the snapshots of the number of
  their queries.
\<close>

theorem total_queries_is_sum_of_snapshot_counts:
  assumes "S \<noteq> []" and "list_all has_fields S"
    and "list_all well_formed (observations S)"
  shows "(\<exists>m. extract_metrics S = Inr m
            \<and> total_queries_observed m = sum_list (map (\<lambda>s. length (queries_of s)) S))
       \<and> (\<exists>m. lr_extract_metrics S = Inr (Some m)
            \<and> total_queries m = sum_list (map (\<lambda>s. length (queries_of s)) S))"
proof
  obtain m where m: "extract_metrics S = Inr m"
    using extract_metrics_total [OF assms] by blast
  obtain l where l: "process_snapshots init_locals S = Inr l"
    and t: "total_queries_observed m = length (query_durations_l l)"
    using extract_metrics_Inr [OF m] by blast
  have "total_queries_observed m = length (observations S)"
    using process_snapshots_fields [OF l] t by (simp add: init_locals_def)
  with m show "\<exists>m. extract_metrics S = Inr m
      \<and> total_queries_observed m = sum_list (map (\<lambda>s. length (queries_of s)) S)"
    by (simp add: sum_lengths_observations)
next
  obtain m where m: "lr_extract_metrics S = Inr (Some m)"
    using lr_extract_metrics_total [OF assms] by blast
  obtain l where l: "lr_process_snapshots lr_init_locals S = Inr l"
    and t: "total_queries m = length (lr_query_durations_l l)"
    using lr_extract_metrics_Inr [OF m] by blast
  have "total_queries m = length (observations S)"
    using lr_process_snapshots_fields [OF l] t by (simp add: lr_init_locals_def)
  with m show "\<exists>m. lr_extract_metrics S = Inr (Some m)
      \<and> total_queries m = sum_list (map (\<lambda>s. length (queries_of s)) S)"
    by (simp add: sum_lengths_observations)
qed

theorem total_queries_is_sum_of_snapshot_counts_witness:
  "example_snapshots \<noteq> [] \<and> list_all has_fields example_snapshots
   \<and> list_all well_formed (observations example_snapshots)
   \<and> (\<exists>m. extract_metrics example_snapshots = Inr m \<and> total_queries_observed m = 3)
   \<and> (\<exists>m. lr_extract_metrics example_snapshots = Inr (Some m) \<and> total_queries m = 3)"
proof -
  have s: "sum_list (map (\<lambda>s. length (queries_of s)) example_snapshots) = 3"
    by code_simp
  show ?thesis
    using total_queries_is_sum_of_snapshot_counts [OF example_snapshots_ok]
      example_snapshots_ok
    by (simp add: s)
qed

text \<open>
  C3. \<^verbatim>\<open>compare_metrics\<close> sorts the spike summary's list of long queries in place
  (\<^verbatim>\<open>spike['long_queries'].sort(...)\<close>), where \<^verbatim>\<open>compare_changes\<close> in the other script
  uses \<^verbatim>\<open>sorted(...)\<close> and leaves its input as it is. With long queries of 11 and 20
  seconds, in that order, the summary holds them in the order 20, 11 after the call.
\<close>

theorem compare_metrics_reorders_spike_long_queries:
  "map_sum id (map lq_duration \<circ> long_queries) (extract_metrics [snap_slow]) = Inr [11, 20]
   \<and> map_sum id (map lq_duration \<circ> long_queries \<circ> snd \<circ> snd)
        (analyze example_snapshots [snap_slow]) = Inr [20, 11]"
  by code_simp

text \<open>
  C4. The specification has the users counted by the attribute \<^verbatim>\<open>username\<close>; the
  extractor reads the key \<^verbatim>\<open>usename\<close>, the name of the column in PostgreSQL's
  \<^verbatim>\<open>pg_stat_activity\<close>. An observation whose \<^verbatim>\<open>username\<close> is \<^verbatim>\<open>alice\<close> and that
  has no \<^verbatim>\<open>usename\<close> is counted under \<^verbatim>\<open>unknown\<close>.
\<close>

theorem users_count_username_counterexample:
  "get q_alice ''username'' (JStr ''unknown'') = JStr ''alice''
   \<and> queries snap_c = Some [q_alice]
   \<and> map_sum id users (extract_metrics [snap_c]) = Inr [(JStr ''unknown'', 1)]"
proof -
  have a: "get q_alice ''username'' (JStr ''unknown'') = JStr ''alice''"
    by code_simp
  have b: "queries snap_c = Some [q_alice]"
    by (simp add: snap_c_def)
  have c: "map_sum id users (extract_metrics [snap_c]) = Inr [(JStr ''unknown'', 1)]"
    by code_simp
  show ?thesis using a b c by blast
qed

text \<open>
  C4, amended. In the extracted summary the count of a user \<open>u\<close> is the number of
  observations whose value under the key \<^verbatim>\<open>usename\<close>, or \<^verbatim>\<open>unknown\<close> when the key is
  absent, is \<open>u\<close>: each observation adds exactly one to the count of that value.
\<close>

theorem users_count_usename:
  assumes "extract_metrics S = Inr m"
  shows "counter_get (users m) u
     = length (filter (\<lambda>q. get q ''usename'' (JStr ''unknown'') = u) (observations S))"
proof -
  obtain l where l: "process_snapshots init_locals S = Inr l"
    and t: "users m = Counter (users_l l)"
    using extract_metrics_Inr [OF assms] by blast
  have "users_l l = map (\<lambda>q. get q ''usename'' (JStr ''unknown'')) (observations S)"
    using process_snapshots_fields [OF l] by (simp add: init_locals_def)
  then show ?thesis
    by (simp add: t counter_get_Counter filter_map comp_def)
qed

theorem users_count_usename_witness:
  "\<exists>m. extract_metrics example_snapshots = Inr m
     \<and> counter_get (users m) (JStr ''bob'') = 1
     \<and> counter_get (users m) (JStr ''unknown'') = 2
     \<and> counter_get (users m) (JStr ''alice'') = 0"
proof -
  obtain m where m: "extract_metrics example_snapshots = Inr m"
    using extract_metrics_total [OF example_snapshots_ok] by blast
  have a: "length (filter (\<lambda>q. get q ''usename'' (JStr ''unknown'') = JStr ''bob'')
      (observations example_snapshots)) = 1"
    by code_simp
  have b: "length (filter (\<lambda>q. get q ''usename'' (JStr ''unknown'') = JStr ''unknown'')
      (observations example_snapshots)) = 2"
    by code_simp
  have c: "length (filter (\<lambda>q. get q ''usename'' (JStr ''unknown'') = JStr ''alice'')
      (observations example_snapshots)) = 0"
    by code_simp
  show ?thesis
    using users_count_usename [OF m] m a b c by simp
qed

text \<open>
  C5. In the summary of either extractor, the long queries are the entries of exactly the
  observations whose duration is strictly greater than 10, in the order of the
  observations.
\<close>

theorem long_query_iff_duration_exceeds_10:
  "(extract_metrics S = Inr m \<longrightarrow>
      long_queries m = map long_entry (filter is_long (observations S)))
   \<and> (lr_extract_metrics S = Inr (Some m') \<longrightarrow>
      lr_long_queries m' = map lr_long_entry (filter is_long (observations S)))"
proof (intro conjI impI)
  assume m: "extract_metrics S = Inr m"
  obtain l where l: "process_snapshots init_locals S = Inr l"
    and t: "long_queries m = long_queries_l l"
    using extract_metrics_Inr [OF m] by blast
  show "long_queries m = map long_entry (filter is_long (observations S))"
    using process_snapshots_fields [OF l] t by (simp add: init_locals_def)
next
  assume m: "lr_extract_metrics S = Inr (Some m')"
  obtain l where l: "lr_process_snapshots lr_init_locals S = Inr l"
    and t: "lr_long_queries m' = lr_long_queries_l l"
    using lr_extract_metrics_Inr [OF m] by blast
  show "lr_long_queries m' = map lr_long_entry (filter is_long (observations S))"
    using lr_process_snapshots_fields [OF l] t by (simp add: lr_init_locals_def)
qed

theorem long_query_iff_duration_exceeds_10_witness:
  "\<exists>m m'. extract_metrics example_snapshots = Inr m
     \<and> lr_extract_metrics example_snapshots = Inr (Some m')
     \<and> map is_long (observations example_snapshots) = [False, True, False]
     \<and> map lq_duration (long_queries m) = [rnd (100001 / 10000)]
     \<and> map lrq_duration (lr_long_queries m') = [rnd (100001 / 10000)]"
proof -
  obtain m where m: "extract_metrics example_snapshots = Inr m"
    using extract_metrics_total [OF example_snapshots_ok] by blast
  obtain m' where m': "lr_extract_metrics example_snapshots = Inr (Some m')"
    using lr_extract_metrics_total [OF example_snapshots_ok] by blast
  have a: "map is_long (observations example_snapshots) = [False, True, False]"
    by code_simp
  have b: "map lq_duration (map long_entry (filter is_long (observations example_snapshots)))
      = [rnd (100001 / 10000)]"
    by code_simp
  have c: "map lrq_duration (map lr_long_entry (filter is_long (observations example_snapshots)))
      = [rnd (100001 / 10000)]"
    by code_simp
  show ?thesis
    using long_query_iff_duration_exceeds_10 [of example_snapshots m m'] m m' a b c
    by simp
qed

text \<open>
  C6. In the summary of either extractor, the lock waits are the entries of exactly the
  observations whose wait event type is the string \<^verbatim>\<open>Lock\<close>, in the order of the
  observations.
\<close>

theorem lock_wait_iff_wait_type_is_Lock:
  "(extract_metrics S = Inr m \<longrightarrow>
      lock_waits m = map lock_entry (filter is_lock (observations S)))
   \<and> (lr_extract_metrics S = Inr (Some m') \<longrightarrow>
      lr_lock_waits m' = map lr_lock_entry (filter is_lock (observations S)))"
proof (intro conjI impI)
  assume m: "extract_metrics S = Inr m"
  obtain l where l: "process_snapshots init_locals S = Inr l"
    and t: "lock_waits m = lock_waits_l l"
    using extract_metrics_Inr [OF m] by blast
  show "lock_waits m = map lock_entry (filter is_lock (observations S))"
    using process_snapshots_fields [OF l] t by (simp add: init_locals_def)
next
  assume m: "lr_extract_metrics S = Inr (Some m')"
  obtain l where l: "lr_process_snapshots lr_init_locals S = Inr l"
    and t: "lr_lock_waits m' = lr_lock_waits_l l"
    using lr_extract_metrics_Inr [OF m] by blast
  show "lr_lock_waits m' = map lr_lock_entry (filter is_lock (observations S))"
    using lr_process_snapshots_fields [OF l] t by (simp add: lr_init_locals_def)
qed

theorem lock_wait_iff_wait_type_is_Lock_witness:
  "\<exists>m m'. extract_metrics example_snapshots = Inr m
     \<and> lr_extract_metrics example_snapshots = Inr (Some m')
     \<and> map (\<lambda>q. get q ''wait_event_type'' (JStr ''unknown'')) (observations example_snapshots)
         = [JStr ''lock'', JStr ''Lock'', JStr ''unknown'']
     \<and> map is_lock (observations example_snapshots) = [False, True, False]
     \<and> map lw_duration (lock_waits m) = [rnd (100001 / 10000)]
     \<and> map lrl_duration (lr_lock_waits m') = [rnd (100001 / 10000)]"
proof -
  obtain m where m: "extract_metrics example_snapshots = Inr m"
    using extract_metrics_total [OF example_snapshots_ok] by blast
  obtain m' where m': "lr_extract_metrics example_snapshots = Inr (Some m')"
    using lr_extract_metrics_total [OF example_snapshots_ok] by blast
  have a: "map is_lock (observations example_snapshots) = [False, True, False]"
    by code_simp
  have b: "map lw_duration (map lock_entry (filter is_lock (observations example_snapshots)))
      = [rnd (100001 / 10000)]"
    by code_simp
  have c: "map lrl_duration (map lr_lock_entry (filter is_lock (observations example_snapshots)))
      = [rnd (100001 / 10000)]"
    by code_simp
  have d: "map (\<lambda>q. get q ''wait_event_type'' (JStr ''unknown'')) (observations example_snapshots)
         = [JStr ''lock'', JStr ''Lock'', JStr ''unknown'']"
    by code_simp
  show ?thesis
    using lock_wait_iff_wait_type_is_Lock [of example_snapshots m m'] m m' a b c d
    by simp
qed

text \<open>
  C7. For summaries \<open>B\<close> and \<open>V\<close> that can be compared, \<^verbatim>\<open>compare_metrics\<close> returns a
  report in which \<open>both\<close> is the intersection of the two signature sets,
  \<open>only_in_normal\<close> and \<open>only_in_spike\<close> are the two differences, and the three
  cardinalities add up to the cardinality of the union.
\<close>

theorem signature_sets_partition_the_union:
  assumes "comparable B V"
  shows "\<exists>r B' V'. compare_metrics B V = Inr (r, B', V')
     \<and> both r = query_signatures B |\<inter>| query_signatures V
     \<and> only_in_normal r = query_signatures B |-| query_signatures V
     \<and> only_in_spike r = query_signatures V |-| query_signatures B
     \<and> fcard (both r) + fcard (only_in_normal r) + fcard (only_in_spike r)
         = fcard (query_signatures B |\<union>| query_signatures V)"
proof -
  obtain r where "compare_metrics B V = Inr (r, B, sorted_spike V)"
    and "both r = query_signatures B |\<inter>| query_signatures V"
    and "only_in_spike r = query_signatures V |-| query_signatures B"
    and "only_in_normal r = query_signatures B |-| query_signatures V"
    using compare_metrics_total [OF assms] by blast
  then show ?thesis
    by (simp add: fcard_partition)
qed

theorem signature_sets_partition_the_union_witness:
  "\<exists>n s r B' V'. extract_metrics [snap_svc_a] = Inr n \<and> extract_metrics [snap_svc_b] = Inr s
     \<and> comparable n s
     \<and> compare_metrics n s = Inr (r, B', V')
     \<and> both r = query_signatures n |\<inter>| query_signatures s
     \<and> fcard (both r) + fcard (only_in_normal r) + fcard (only_in_spike r)
         = fcard (query_signatures n |\<union>| query_signatures s)"
proof -
  obtain n s where n: "extract_metrics [snap_svc_a] = Inr n"
    and s: "extract_metrics [snap_svc_b] = Inr s" and c: "comparable n s"
    using svc_extracts by blast
  show ?thesis
    using signature_sets_partition_the_union [OF c] n s c by blast
qed

text \<open>
  C8. The specification gives, as an example in which no rule fires, a baseline and a
  variant with no long queries, no lock waits and equal load averages. The rule on new
  applications can still fire: with one query of \<^verbatim>\<open>svc-a\<close> in the baseline and one
  of \<^verbatim>\<open>svc-b\<close> in the variant, the only finding is the one on new applications.
\<close>

theorem no_rule_fires_example_counterexample:
  "map_sum id long_queries (extract_metrics [snap_svc_a]) = Inr []
   \<and> map_sum id long_queries (extract_metrics [snap_svc_b]) = Inr []
   \<and> map_sum id lock_waits (extract_metrics [snap_svc_a]) = Inr []
   \<and> map_sum id lock_waits (extract_metrics [snap_svc_b]) = Inr []
   \<and> map_sum id (st_avg \<circ> load_1m) (extract_metrics [snap_svc_a]) = Inr 1
   \<and> map_sum id (st_avg \<circ> load_1m) (extract_metrics [snap_svc_b]) = Inr 1
   \<and> map_sum id (findings \<circ> fst) (analyze [snap_svc_a] [snap_svc_b])
       = Inr [NewApplications 1]"
  by code_simp

text \<open>
  C8, amended. For summaries \<open>B\<close> and \<open>V\<close> that can be compared, the findings of the
  report are the findings of the five rules, each evaluated on \<open>B\<close> and \<open>V\<close> alone, in
  the order of their declaration; when no rule fires, the only finding is that there is
  no significant difference. That is so, for example, when baseline and variant have no
  long queries, no lock waits and equal load averages, and every application of the
  variant is also one of the baseline.
\<close>

theorem findings_are_the_rules_that_fire:
  assumes "comparable B V"
  shows "\<exists>r B' V'. compare_metrics B V = Inr (r, B', V')
     \<and> load_pct r = load_percent B V
     \<and> findings r = (if rules B V = [] then [NoSignificantDifferences] else rules B V)
     \<and> (long_queries B = [] \<and> long_queries V = [] \<and> lock_waits B = [] \<and> lock_waits V = []
          \<and> st_avg (load_1m B) = st_avg (load_1m V) \<and> new_applications B V = {||}
        \<longrightarrow> findings r = [NoSignificantDifferences])"
proof -
  obtain r where c: "compare_metrics B V = Inr (r, B, sorted_spike V)"
    and p: "load_pct r = load_percent B V"
    and f: "findings r = (if rules B V = [] then [NoSignificantDifferences] else rules B V)"
    using compare_metrics_total [OF assms] by blast
  have "rules B V = []"
    if "long_queries B = []" "long_queries V = []" "lock_waits B = []" "lock_waits V = []"
      "st_avg (load_1m B) = st_avg (load_1m V)" "new_applications B V = {||}"
    using that
    by (simp add: rules_def rule_long_queries_def rule_lock_waits_def rule_load_def
        load_percent_def rule_new_apps_def rule_culprit_def percent_def f_sub_def f_mul_def
        f_div_def)
  with c p f show ?thesis by simp
qed

theorem findings_are_the_rules_that_fire_witness:
  "\<exists>n r B' V'. extract_metrics [snap_svc_a] = Inr n \<and> comparable n n
     \<and> long_queries n = [] \<and> lock_waits n = [] \<and> new_applications n n = {||}
     \<and> compare_metrics n n = Inr (r, B', V')
     \<and> findings r = [NoSignificantDifferences]"
proof -
  obtain n where n: "extract_metrics [snap_svc_a] = Inr n" and c: "comparable n n"
    using svc_extracts by blast
  have "map_sum id (\<lambda>m. (long_queries m, lock_waits m)) (extract_metrics [snap_svc_a])
      = Inr ([], [])"
    by code_simp
  with n have e: "long_queries n = []" "lock_waits n = []" by simp_all
  have a: "new_applications n n = {||}" by (simp add: new_applications_def)
  show ?thesis
    using findings_are_the_rules_that_fire [OF c] n c e a by auto
qed

text \<open>
  C9. The specification gives the signature as the first 200 characters of the preview
  with all runs of whitespace collapsed to single spaces. \<^verbatim>\<open>' '.join(preview[:200].split())\<close>
  also removes the whitespace at both ends: the signature of \<^verbatim>\<open>" SELECT  1"\<close> is
  \<^verbatim>\<open>"SELECT 1"\<close>, with no space in front.
\<close>

theorem signature_keeps_no_leading_space_counterexample:
  "get q_padded ''query_preview'' (JStr []) = JStr '' SELECT  1''
   \<and> collapse_runs (take 200 '' SELECT  1'') = '' SELECT 1''
   \<and> get_query_signature q_padded = Inr (Some ''SELECT 1'')"
  by code_simp

text \<open>
  C9, amended. The signature of an observation is a function of its \<^verbatim>\<open>query_preview\<close>
  alone: for a non-empty preview, its first 200 characters with the whitespace at both
  ends removed and all other runs of whitespace collapsed to single spaces; for an empty
  preview the signature is absent, and the observation adds nothing to the set of
  signatures.
\<close>

theorem signature_is_normalised_preview:
  "(q ''query_preview'' = q' ''query_preview''
      \<longrightarrow> get_query_signature q = get_query_signature q')
   \<and> (get q ''query_preview'' (JStr []) = JStr p \<and> p \<noteq> []
      \<longrightarrow> get_query_signature q = Inr (Some (collapse_runs (strip_ws (take 200 p)))))
   \<and> (get q ''query_preview'' (JStr []) = JStr []
      \<longrightarrow> get_query_signature q = Inr None
        \<and> (\<forall>l l'. process_query l q = Inr l'
              \<longrightarrow> query_signatures_l l' = query_signatures_l l))"
proof (intro conjI impI allI)
  assume "q ''query_preview'' = q' ''query_preview''"
  then show "get_query_signature q = get_query_signature q'"
    by (simp add: get_query_signature_def get_def)
next
  assume "get q ''query_preview'' (JStr []) = JStr p \<and> p \<noteq> []"
  then show "get_query_signature q = Inr (Some (collapse_runs (strip_ws (take 200 p))))"
    by (simp add: get_query_signature_def join_str_split)
next
  assume "get q ''query_preview'' (JStr []) = JStr []"
  then show "get_query_signature q = Inr None"
    by (simp add: get_query_signature_def)
next
  fix l l'
  assume "get q ''query_preview'' (JStr []) = JStr []" and "process_query l q = Inr l'"
  then show "query_signatures_l l' = query_signatures_l l"
    by (rule process_query_no_preview)
qed

theorem signature_is_normalised_preview_witness:
  "q_padded ''query_preview'' = (q_padded(''usename'' \<mapsto> JStr ''bob'')) ''query_preview''
   \<and> get_query_signature q_padded
       = get_query_signature (q_padded(''usename'' \<mapsto> JStr ''bob''))
   \<and> get q_padded ''query_preview'' (JStr []) = JStr '' SELECT  1''
   \<and> get_query_signature q_padded = Inr (Some ''SELECT 1'')
   \<and> get q_no_preview ''query_preview'' (JStr []) = JStr []
   \<and> get_query_signature q_no_preview = Inr None
   \<and> (\<exists>l'. process_query init_locals q_no_preview = Inr l'
        \<and> query_signatures_l l' = {||})"
proof -
  have a: "q_padded ''query_preview'' = (q_padded(''usename'' \<mapsto> JStr ''bob'')) ''query_preview''"
    by simp
  have b: "get q_padded ''query_preview'' (JStr []) = JStr '' SELECT  1''"
    by code_simp
  have c: "collapse_runs (strip_ws (take 200 '' SELECT  1'')) = ''SELECT 1''"
    by code_simp
  have d: "get q_no_preview ''query_preview'' (JStr []) = JStr []"
    by code_simp
  have "well_formed q_no_preview" by code_simp
  then obtain l' where l': "process_query init_locals q_no_preview = Inr l'"
    using process_query_total by blast
  have e: "query_signatures_l init_locals = {||}"
    by (simp add: init_locals_def)
  note t1 = signature_is_normalised_preview
      [of q_padded "q_padded(''usename'' \<mapsto> JStr ''bob'')" "'' SELECT  1''"]
  note t2 = signature_is_normalised_preview [of q_no_preview q_no_preview "[]"]
  have f1: "get_query_signature q_padded
      = get_query_signature (q_padded(''usename'' \<mapsto> JStr ''bob''))"
    using t1 a by blast
  have "get_query_signature q_padded
      = Inr (Some (collapse_runs (strip_ws (take 200 '' SELECT  1''))))"
    using t1 b by blast
  then have f2: "get_query_signature q_padded = Inr (Some ''SELECT 1'')"
    by (simp only: c)
  have f3: "get_query_signature q_no_preview = Inr None"
    using t2 d by blast
  have "query_signatures_l l' = query_signatures_l init_locals"
    using t2 d l' by blast
  then have f4: "query_signatures_l l' = {||}"
    by (simp only: e)
  show ?thesis
    using a f1 b f2 d f3 l' f4 by blast
qed

text \<open>
  C10. On an empty list of snapshots the extractor of \<^verbatim>\<open>compare_leader_replica.py\<close>
  returns \<^verbatim>\<open>None\<close>, and the extractor of \<^verbatim>\<open>analyze_pg_spike.py\<close> raises (ValueError,
  from \<^verbatim>\<open>min\<close> of an empty list). \<^verbatim>\<open>compare_changes\<close> raises TypeError when either of
  its summaries is \<^verbatim>\<open>None\<close>, so the comparison of a server with an empty period
  returns no report.
\<close>

theorem empty_snapshots_None_then_compare_changes_fails:
  "lr_extract_metrics [] = Inr None
   \<and> extract_metrics [] = Inl ValueError
   \<and> compare_changes server_name None spike = Inl TypeError
   \<and> compare_changes server_name normal None = Inl TypeError
   \<and> analyze_server server_name [] spike_snapshots \<noteq> Inr r
   \<and> analyze_server server_name normal_snapshots [] \<noteq> Inr r"
proof -
  have a: "lr_extract_metrics [] = Inr None"
    by (simp add: lr_extract_metrics_def)
  have b: "extract_metrics [] = Inl ValueError"
    by (simp add: extract_metrics_def init_locals_def stats_def py_min_def)
  have c: "compare_changes server_name None spike = Inl TypeError" for spike
    by (cases spike) (simp_all add: compare_changes_def)
  have d: "compare_changes server_name normal None = Inl TypeError" for normal
    by (simp add: compare_changes_def)
  have e: "analyze_server server_name [] spike_snapshots \<noteq> Inr r"
    by (cases "lr_extract_metrics spike_snapshots") (simp_all add: analyze_server_def a c)
  have f: "analyze_server server_name normal_snapshots [] \<noteq> Inr r"
    by (cases "lr_extract_metrics normal_snapshots") (simp_all add: analyze_server_def a d)
  show ?thesis using a b c d e f by simp
qed

end
